theory Spec2Isabelle
  imports Complex_Main "HOL-Library.Word" "HOL-Library.Log_Nat"
begin

section \<open>JavaScript strings and values\<close>

text \<open>
  A JavaScript string is a sequence of UTF-16 code units. String literals of the source
  are ASCII and are written \<open>str ''...''\<close>.
\<close>

type_synonym jsstring = "16 word list"

definition str :: "string \<Rightarrow> jsstring" where
  "str s = map of_char s"

text \<open>
  \<open>String.prototype.trim\<close> removes the code points of the ECMAScript productions
  WhiteSpace (TAB, VT, FF, SP, NBSP, ZWNBSP and the category Zs) and LineTerminator
  (LF, CR, LS, PS) from both ends. Every one of them is a single code unit.
\<close>

definition isWhiteSpace :: "16 word \<Rightarrow> bool" where
  "isWhiteSpace c = (c \<in> set [0x9, 0xA, 0xB, 0xC, 0xD, 0x20, 0xA0, 0x1680,
     0x2000, 0x2001, 0x2002, 0x2003, 0x2004, 0x2005, 0x2006, 0x2007, 0x2008, 0x2009, 0x200A,
     0x2028, 0x2029, 0x202F, 0x205F, 0x3000, 0xFEFF])"

definition trim :: "jsstring \<Rightarrow> jsstring" where
  "trim s = rev (dropWhile isWhiteSpace (rev (dropWhile isWhiteSpace s)))"

text \<open>
  The values a configuration field or an expected outcome can hold. \<open>JOther\<close> stands for
  every value whose \<open>typeof\<close> is neither "string", "number", "boolean" nor "undefined"
  and that is not \<open>null\<close> (objects, arrays, functions, symbols, bigints). Numbers are
  read only through their tag and their text, so they are kept as reals.
\<close>

datatype jsvalue =
    JUndefined
  | JNull
  | JBoolean bool
  | JNumber real
  | JString jsstring
  | JOther

datatype error = TypeError

subsection \<open>Numbers\<close>

text \<open>
  A JavaScript number is an IEEE 754 binary64 value: a finite value (here the rational it
  denotes, with \<open>Finite 0\<close> for \<open>+0\<close>), \<open>-0\<close>, \<open>NaN\<close> or an infinity. \<open>roundDouble\<close>
  rounds a rational to the nearest binary64 value, ties to even: the significand has 53
  bits, the exponent of a normal value is at least \<open>-1022\<close>, and a result of magnitude
  \<open>2^1024\<close> or more is an infinity.
\<close>

datatype number = Finite rat | NegZero | NaN | PosInfinity | NegInfinity

definition pow2 :: "int \<Rightarrow> rat" where
  "pow2 e = (if 0 \<le> e then 2 ^ nat e else 1 / 2 ^ nat (- e))"

definition roundTiesEven :: "rat \<Rightarrow> int" where
  "roundTiesEven q =
     (let f = \<lfloor>q\<rfloor>; d = q - of_int f
      in if d < 1 / 2 then f else if 1 / 2 < d then f + 1 else if even f then f else f + 1)"

text \<open>The exponent \<open>e\<close> of a positive rational: \<open>2^e \<le> q < 2^(e+1)\<close>.\<close>

definition binaryExponent :: "rat \<Rightarrow> int" where
  "binaryExponent q =
     (let e = bitlen (fst (quotient_of q)) - bitlen (snd (quotient_of q))
      in if pow2 e \<le> q then e else e - 1)"

definition roundDouble :: "rat \<Rightarrow> number" where
  "roundDouble q =
     (if q = 0 then Finite 0
      else
        let e = max (binaryExponent \<bar>q\<bar>) (- 1022);
            ulp = pow2 (e - 52);
            r = of_int (roundTiesEven (q / ulp)) * ulp
        in if pow2 1024 \<le> \<bar>r\<bar> then (if 0 < q then PosInfinity else NegInfinity)
           else if r = 0 then (if q < 0 then NegZero else Finite 0)
           else Finite r)"

text \<open>\<open>n + 1\<close> on numbers.\<close>

fun plusOne :: "number \<Rightarrow> number" where
  "plusOne (Finite q) = roundDouble (q + 1)"
| "plusOne NegZero = Finite 1"
| "plusOne NaN = NaN"
| "plusOne PosInfinity = PosInfinity"
| "plusOne NegInfinity = NegInfinity"

text \<open>The decimal digits of a natural number.\<close>

fun decimal :: "nat \<Rightarrow> jsstring" where
  "decimal n =
     (if n < 10 then [of_nat (48 + n)]
      else decimal (n div 10) @ [of_nat (48 + n mod 10)])"

section \<open>NodeInspector.tsx\<close>

fun isFieldMissing :: "jsvalue \<Rightarrow> bool" where
  "isFieldMissing JUndefined = True"
| "isFieldMissing JNull = True"
| "isFieldMissing (JString s) = (length (trim s) = 0)"
| "isFieldMissing v = False"

section \<open>ProgressContext.tsx\<close>

datatype ModuleStatus = Locked | Available | Completed

fun statusText :: "ModuleStatus \<Rightarrow> jsstring" where
  "statusText Locked = str ''locked''"
| "statusText Available = str ''available''"
| "statusText Completed = str ''completed''"

text \<open>The attempt counters are numbers (\<open>attempts: { validate: number; simulate: number }\<close>).\<close>

record Attempts =
  validate :: number
  simulate :: number

record ModuleProgress =
  status :: ModuleStatus
  attempts :: Attempts
  teachBack :: jsstring

text \<open>
  \<open>modules\<close> is a plain JavaScript object that the code indexes with any string
  (\<open>modules[moduleId]\<close>), so a lookup also finds what the object inherits from its
  prototype, and the updaters can be handed a value that is not a module entry. The
  objects that can stand under a key are the plain objects with the properties that the
  code reads and writes: \<open>status\<close>, \<open>attempts\<close> and \<open>teachBack\<close> of an entry,
  \<open>validate\<close> and \<open>simulate\<close> of its \<open>attempts\<close>, and the index properties that spreading
  a string gives (\<open>indexChars\<close>: the property \<open>i\<close> is its \<open>i\<close>-th code unit). A property
  is present or absent; a property that holds \<open>undefined\<close> reads like an absent one.
\<close>

record PlainObject =
  statusProp :: "ModuleStatus option"
  attemptsProp :: "Attempts option"
  teachBackProp :: "jsstring option"
  validateProp :: "number option"
  simulateProp :: "number option"
  indexChars :: jsstring

definition emptyObject :: PlainObject where
  "emptyObject =
     \<lparr>statusProp = None, attemptsProp = None, teachBackProp = None, validateProp = None,
      simulateProp = None, indexChars = []\<rparr>"

text \<open>The object \<open>{ status, attempts, teachBack }\<close> of a module entry.\<close>

definition moduleObject :: "ModuleProgress \<Rightarrow> PlainObject" where
  "moduleObject m =
     emptyObject\<lparr>statusProp := Some (status m), attemptsProp := Some (attempts m),
       teachBackProp := Some (teachBack m)\<rparr>"

text \<open>
  The values a lookup in \<open>modules\<close> can give: a plain object, a string or a number (a
  property of a module entry that has become the prototype), a built-in function of
  \<open>Object.prototype\<close> (by its name), or \<open>Object.prototype\<close> itself.
\<close>

datatype Value =
    PObject PlainObject
  | PString jsstring
  | PNumber number
  | PBuiltin jsstring
  | PObjectPrototype

text \<open>
  The object \<open>modules\<close>: its own properties, and its prototype when that is no longer
  \<open>Object.prototype\<close> (\<open>proto = None\<close> stands for \<open>Object.prototype\<close>).
\<close>

record ModulesObject =
  own :: "jsstring \<rightharpoonup> Value"
  proto :: "PlainObject option"

record ProgressState =
  modules :: ModulesObject

record ModuleManifestEntry =
  moduleId :: jsstring
  entryTitle :: jsstring
  entryPhase :: jsstring

text \<open>
  The properties of \<open>Object.prototype\<close>: its functions, and the accessor \<open>__proto__\<close>,
  whose getter returns the prototype of the object it is read on.
\<close>

definition objectPrototypeFunctions :: "jsstring list" where
  "objectPrototypeFunctions =
     [str ''constructor'', str ''hasOwnProperty'', str ''isPrototypeOf'',
      str ''propertyIsEnumerable'', str ''toLocaleString'', str ''toString'', str ''valueOf'',
      str ''__defineGetter__'', str ''__defineSetter__'', str ''__lookupGetter__'',
      str ''__lookupSetter__'']"

definition objectPrototypeGet :: "Value \<Rightarrow> jsstring \<Rightarrow> Value option" where
  "objectPrototypeGet receiverPrototype k =
     (if k \<in> set objectPrototypeFunctions then Some (PBuiltin k)
      else if k = str ''__proto__'' then Some receiverPrototype
      else None)"

definition attemptsObject :: "Attempts \<Rightarrow> PlainObject" where
  "attemptsObject a =
     emptyObject\<lparr>validateProp := Some (validate a), simulateProp := Some (simulate a)\<rparr>"

text \<open>The own property \<open>k\<close> of a plain object.\<close>

definition plainOwn :: "PlainObject \<Rightarrow> jsstring \<Rightarrow> Value option" where
  "plainOwn obj k =
     (if k = str ''status'' then map_option (\<lambda>st. PString (statusText st)) (statusProp obj)
      else if k = str ''attempts''
      then map_option (\<lambda>a. PObject (attemptsObject a)) (attemptsProp obj)
      else if k = str ''teachBack'' then map_option PString (teachBackProp obj)
      else if k = str ''validate'' then map_option PNumber (validateProp obj)
      else if k = str ''simulate'' then map_option PNumber (simulateProp obj)
      else (case filter (\<lambda>i. decimal i = k) [0..<length (indexChars obj)] of
              [] \<Rightarrow> None
            | i # rest \<Rightarrow> Some (PString [indexChars obj ! i])))"

text \<open>
  \<open>modules[k]\<close>: the own property, else the property of the prototype chain; \<open>None\<close> is
  \<open>undefined\<close>.
\<close>

definition modulesGet :: "ModulesObject \<Rightarrow> jsstring \<Rightarrow> Value option" where
  "modulesGet ms k =
     (case own ms k of
        Some v \<Rightarrow> Some v
      | None \<Rightarrow>
          (case proto ms of
             None \<Rightarrow> objectPrototypeGet PObjectPrototype k
           | Some p \<Rightarrow>
               (case plainOwn p k of
                  Some v \<Rightarrow> Some v
                | None \<Rightarrow> objectPrototypeGet (PObject p) k)))"

text \<open>
  \<open>modules[k] = obj\<close>: an assignment to \<open>__proto__\<close> on an object without an own property
  of that name runs the setter of \<open>Object.prototype\<close>, which makes \<open>obj\<close> the prototype
  and adds no property; every other assignment sets the own property.
\<close>

definition assignModule :: "ModulesObject \<Rightarrow> jsstring \<Rightarrow> PlainObject \<Rightarrow> ModulesObject" where
  "assignModule ms k obj =
     (if k = str ''__proto__'' \<and> own ms k = None then ms\<lparr>proto := Some obj\<rparr>
      else ms\<lparr>own := (own ms)(k \<mapsto> PObject obj)\<rparr>)"

text \<open>\<open>!existing\<close> is false for the truthy values.\<close>

fun truthy :: "Value \<Rightarrow> bool" where
  "truthy (PString s) = (length s \<noteq> 0)"
| "truthy (PNumber n) = (n \<noteq> Finite 0 \<and> n \<noteq> NegZero \<and> n \<noteq> NaN)"
| "truthy v = True"

text \<open>
  \<open>{ ...current }\<close>: the own enumerable properties of \<open>current\<close>; a string spreads into
  its index properties, a number and a built-in have none.
\<close>

fun spread :: "Value \<Rightarrow> PlainObject" where
  "spread (PObject obj) = obj"
| "spread (PString s) = emptyObject\<lparr>indexChars := s\<rparr>"
| "spread v = emptyObject"

text \<open>\<open>current.status\<close> and \<open>current.attempts\<close>; \<open>None\<close> is \<open>undefined\<close>.\<close>

fun valueStatus :: "Value \<Rightarrow> ModuleStatus option" where
  "valueStatus (PObject obj) = statusProp obj"
| "valueStatus v = None"

fun valueAttempts :: "Value \<Rightarrow> Attempts option" where
  "valueAttempts (PObject obj) = attemptsProp obj"
| "valueAttempts v = None"

text \<open>
  The saved state is what \<open>JSON.parse\<close> gave for the stored text, at its declared type
  \<open>ProgressState\<close>: the code reads it with \<open>?.\<close> and \<open>??\<close>, so every property of it may be
  absent.
\<close>

record SavedModule =
  savedStatus :: "ModuleStatus option"
  savedAttempts :: "Attempts option"
  savedTeachBack :: "jsstring option"

record SavedState =
  savedModules :: "(jsstring \<rightharpoonup> SavedModule) option"

text \<open>
  \<open>saved.modules?.[moduleId]\<close>: the own property, else what \<open>saved.modules\<close> inherits from
  \<open>Object.prototype\<close>, which is truthy and has none of the three properties.
\<close>

definition savedModuleAt :: "SavedState \<Rightarrow> jsstring \<Rightarrow> SavedModule option" where
  "savedModuleAt saved mId =
     (case savedModules saved of
        None \<Rightarrow> None
      | Some ms \<Rightarrow>
          (case ms mId of
             Some m \<Rightarrow> Some m
           | None \<Rightarrow>
               (if mId \<in> set objectPrototypeFunctions \<or> mId = str ''__proto__''
                then Some \<lparr>savedStatus = None, savedAttempts = None, savedTeachBack = None\<rparr>
                else None)))"

definition defaultModule :: PlainObject where
  "defaultModule =
     moduleObject \<lparr>status = Available, attempts = \<lparr>validate = Finite 0, simulate = Finite 0\<rparr>,
                   teachBack = []\<rparr>"

definition buildDefaultProgress :: "ModuleManifestEntry list \<Rightarrow> ProgressState" where
  "buildDefaultProgress manifest =
     \<lparr>modules = fold (\<lambda>entry ms. assignModule ms (moduleId entry) defaultModule)
                  manifest \<lparr>own = Map.empty, proto = None\<rparr>\<rparr>"

text \<open>
  The object literal assigned to \<open>merged.modules[entry.moduleId]\<close>. Reading a property of
  \<open>baseline.modules[entry.moduleId]\<close> throws a TypeError when the lookup gives
  \<open>undefined\<close>; the operands of \<open>??\<close> are evaluated from left to right.
\<close>

definition mergeModule :: "ProgressState \<Rightarrow> jsstring \<Rightarrow> SavedModule \<Rightarrow> error + PlainObject" where
  "mergeModule baseline mId savedModule =
     (let savedStatus' =
            (if savedStatus savedModule = Some Locked then Some Available
             else savedStatus savedModule)
      in case (case savedStatus' of
                 Some st \<Rightarrow> Inr (Some st)
               | None \<Rightarrow>
                   (case modulesGet (modules baseline) mId of
                      None \<Rightarrow> Inl TypeError
                    | Some b \<Rightarrow> Inr (valueStatus b))) of
           Inl e \<Rightarrow> Inl e
         | Inr st \<Rightarrow>
             (case (case savedAttempts savedModule of
                      Some a \<Rightarrow> Inr (Some a)
                    | None \<Rightarrow>
                        (case modulesGet (modules baseline) mId of
                           None \<Rightarrow> Inl TypeError
                         | Some b \<Rightarrow> Inr (valueAttempts b))) of
                Inl e \<Rightarrow> Inl e
              | Inr a \<Rightarrow>
                  Inr (emptyObject\<lparr>statusProp := st, attemptsProp := a,
                         teachBackProp := Some (case savedTeachBack savedModule of
                                                  Some t \<Rightarrow> t | None \<Rightarrow> [])\<rparr>)))"

fun mergeLoop ::
  "SavedState \<Rightarrow> ProgressState \<Rightarrow> ModuleManifestEntry list \<Rightarrow> ModulesObject \<Rightarrow>
   error + ModulesObject" where
  "mergeLoop saved baseline [] merged = Inr merged"
| "mergeLoop saved baseline (entry # rest) merged =
     (case savedModuleAt saved (moduleId entry) of
        None \<Rightarrow> mergeLoop saved baseline rest merged
      | Some savedModule \<Rightarrow>
          (case mergeModule baseline (moduleId entry) savedModule of
             Inl e \<Rightarrow> Inl e
           | Inr m \<Rightarrow>
               mergeLoop saved baseline rest (assignModule merged (moduleId entry) m)))"

text \<open>
  \<open>{ ...baseline.modules }\<close> copies the own properties of \<open>baseline.modules\<close> into a new
  object, whose prototype is \<open>Object.prototype\<close>.
\<close>

definition mergeProgress ::
  "ModuleManifestEntry list \<Rightarrow> SavedState option \<Rightarrow> error + ProgressState" where
  "mergeProgress manifest saved =
     (let baseline = buildDefaultProgress manifest
      in case saved of
           None \<Rightarrow> Inr baseline
         | Some sv \<Rightarrow>
             map_sum id (\<lambda>ms. \<lparr>modules = ms\<rparr>)
               (mergeLoop sv baseline manifest
                  \<lparr>own = own (modules baseline), proto = None\<rparr>))"

text \<open>
  \<open>setProgress\<close> is called with an updater function, so the provider's operations are
  functions from the current state to the next, applied in the order they are called; an
  updater can throw. In \<open>{ ...current.modules, [moduleId]: updater(existing) }\<close> the
  computed key always defines an own property, also for \<open>__proto__\<close>.
\<close>

definition updateModule ::
  "jsstring \<Rightarrow> (Value \<Rightarrow> error + Value) \<Rightarrow> ProgressState \<Rightarrow> error + ProgressState" where
  "updateModule mId updater current =
     (case modulesGet (modules current) mId of
        None \<Rightarrow> Inr current
      | Some existing \<Rightarrow>
          (if \<not> truthy existing then Inr current
           else (case updater existing of
                   Inl e \<Rightarrow> Inl e
                 | Inr v \<Rightarrow>
                     Inr \<lparr>modules = \<lparr>own = (own (modules current))(mId \<mapsto> v),
                                      proto = None\<rparr>\<rparr>)))"

definition unlockModule :: "jsstring \<Rightarrow> ProgressState \<Rightarrow> error + ProgressState" where
  "unlockModule mId =
     updateModule mId (\<lambda>current.
       if valueStatus current \<noteq> Some Locked then Inr current
       else Inr (PObject ((spread current)\<lparr>statusProp := Some Available\<rparr>)))"

text \<open>\<open>Array.prototype.indexOf\<close>: the first index holding the value, or -1.\<close>

fun indexOf :: "'a list \<Rightarrow> 'a \<Rightarrow> int" where
  "indexOf [] x = - 1"
| "indexOf (y # ys) x =
     (if y = x then 0 else (let i = indexOf ys x in if i < 0 then - 1 else i + 1))"

definition markCompleted ::
  "jsstring list \<Rightarrow> jsstring \<Rightarrow> ProgressState \<Rightarrow> error + ProgressState" where
  "markCompleted moduleOrder mId current =
     (case updateModule mId
             (\<lambda>c. Inr (PObject ((spread c)\<lparr>statusProp := Some Completed\<rparr>))) current of
        Inl e \<Rightarrow> Inl e
      | Inr completed \<Rightarrow>
          (let index = indexOf moduleOrder mId
           in if index \<ge> 0 \<and> index < int (length moduleOrder) - 1
              then unlockModule (moduleOrder ! nat (index + 1)) completed
              else Inr completed))"

text \<open>
  \<open>current.attempts.validate\<close> throws a TypeError when \<open>current.attempts\<close> is
  \<open>undefined\<close>.
\<close>

definition markValidateAttempt :: "jsstring \<Rightarrow> ProgressState \<Rightarrow> error + ProgressState" where
  "markValidateAttempt mId =
     updateModule mId (\<lambda>current.
       case valueAttempts current of
         None \<Rightarrow> Inl TypeError
       | Some a \<Rightarrow>
           Inr (PObject ((spread current)
                  \<lparr>attemptsProp := Some (a\<lparr>validate := plusOne (validate a)\<rparr>)\<rparr>)))"

definition markSimulateAttempt :: "jsstring \<Rightarrow> ProgressState \<Rightarrow> error + ProgressState" where
  "markSimulateAttempt mId =
     updateModule mId (\<lambda>current.
       case valueAttempts current of
         None \<Rightarrow> Inl TypeError
       | Some a \<Rightarrow>
           Inr (PObject ((spread current)
                  \<lparr>attemptsProp := Some (a\<lparr>simulate := plusOne (simulate a)\<rparr>)\<rparr>)))"

definition updateTeachBack :: "jsstring \<Rightarrow> jsstring \<Rightarrow> ProgressState \<Rightarrow> error + ProgressState" where
  "updateTeachBack mId text =
     updateModule mId (\<lambda>current.
       Inr (PObject ((spread current)\<lparr>teachBackProp := Some text\<rparr>)))"

text \<open>
  The states of the provider for a manifest: the initial state, the state loaded from
  storage, and every state an operation of the context value leads to.
\<close>

inductive reachable :: "ModuleManifestEntry list \<Rightarrow> ProgressState \<Rightarrow> bool"
  for manifest :: "ModuleManifestEntry list" where
  initial: "reachable manifest (buildDefaultProgress manifest)"
| loaded: "mergeProgress manifest saved = Inr s \<Longrightarrow> reachable manifest s"
| validated:
    "reachable manifest s \<Longrightarrow> markValidateAttempt mId s = Inr s' \<Longrightarrow> reachable manifest s'"
| simulated:
    "reachable manifest s \<Longrightarrow> markSimulateAttempt mId s = Inr s' \<Longrightarrow> reachable manifest s'"
| taughtBack:
    "reachable manifest s \<Longrightarrow> updateTeachBack mId t s = Inr s' \<Longrightarrow> reachable manifest s'"
| completed:
    "reachable manifest s \<Longrightarrow> markCompleted (map moduleId manifest) mId s = Inr s' \<Longrightarrow>
     reachable manifest s'"
| unlocked:
    "reachable manifest s \<Longrightarrow> unlockModule mId s = Inr s' \<Longrightarrow> reachable manifest s'"

text \<open>The own entry of a module in the saved state.\<close>

definition savedOwn :: "SavedState option \<Rightarrow> jsstring \<Rightarrow> SavedModule option" where
  "savedOwn saved mId =
     (case saved of
        None \<Rightarrow> None
      | Some sv \<Rightarrow> (case savedModules sv of None \<Rightarrow> None | Some ms \<Rightarrow> ms mId))"

text \<open>The entry a saved module is merged to, in closed form.\<close>

definition mergedModule :: "SavedModule \<Rightarrow> ModuleProgress" where
  "mergedModule sm =
     \<lparr>status = (case savedStatus sm of None \<Rightarrow> Available | Some Locked \<Rightarrow> Available | Some st \<Rightarrow> st),
      attempts = (case savedAttempts sm of None \<Rightarrow> \<lparr>validate = Finite 0, simulate = Finite 0\<rparr> | Some a \<Rightarrow> a),
      teachBack = (case savedTeachBack sm of None \<Rightarrow> [] | Some t \<Rightarrow> t)\<rparr>"

text \<open>Every module of the manifest is found by a lookup in \<open>modules\<close>.\<close>

definition found :: "ModuleManifestEntry list \<Rightarrow> ModulesObject \<Rightarrow> bool" where
  "found manifest ms =
     (\<forall>k \<in> moduleId ` set manifest. k \<in> dom (own ms) \<or> k = str ''__proto__'')"

subsection \<open>Example data\<close>

definition M01 :: ModuleManifestEntry where
  "M01 = \<lparr>moduleId = str ''M01'', entryTitle = str ''One'', entryPhase = str ''1''\<rparr>"

definition M02 :: ModuleManifestEntry where
  "M02 = \<lparr>moduleId = str ''M02'', entryTitle = str ''Two'', entryPhase = str ''1''\<rparr>"

definition exampleProgress :: ProgressState where
  "exampleProgress = \<lparr>modules = \<lparr>own = [
      str ''M01'' \<mapsto> PObject (moduleObject \<lparr>status = Available,
                        attempts = \<lparr>validate = Finite 3, simulate = Finite 1\<rparr>,
                        teachBack = str ''notes''\<rparr>),
      str ''M02'' \<mapsto> PObject (moduleObject \<lparr>status = Locked,
                        attempts = \<lparr>validate = Finite 0, simulate = Finite 0\<rparr>,
                        teachBack = []\<rparr>)], proto = None\<rparr>\<rparr>"

text \<open>A state whose validate counter is \<open>2^53\<close>.\<close>

definition saturatedProgress :: ProgressState where
  "saturatedProgress = \<lparr>modules = \<lparr>own = [
      str ''M01'' \<mapsto> PObject (moduleObject \<lparr>status = Available,
                        attempts = \<lparr>validate = Finite (2 ^ 53), simulate = Finite 0\<rparr>,
                        teachBack = []\<rparr>)], proto = None\<rparr>\<rparr>"

section \<open>ModuleShell.tsx\<close>

text \<open>
  \<open>String(v)\<close> and the conversion a template literal applies. The text of a number
  (\<open>Number.prototype.toString\<close>) and of an object is the parameter \<open>toText\<close>.
\<close>

fun String_js :: "(jsvalue \<Rightarrow> jsstring) \<Rightarrow> jsvalue \<Rightarrow> jsstring" where
  "String_js toText (JString s) = s"
| "String_js toText (JBoolean b) = (if b then str ''true'' else str ''false'')"
| "String_js toText JNull = str ''null''"
| "String_js toText JUndefined = str ''undefined''"
| "String_js toText v = toText v"

text \<open>\<open>Array.prototype.join\<close> on an array of strings.\<close>

fun join :: "jsstring \<Rightarrow> jsstring list \<Rightarrow> jsstring" where
  "join sep [] = []"
| "join sep [x] = x"
| "join sep (x # y # ys) = x @ sep @ join sep (y # ys)"

type_synonym NodeType = jsstring

text \<open>
  The requirement kinds of the catalogue, and the type of the \<open>type\<close> tags that are none
  of them: a requirement is a value of the tagged union \<open>Requirement\<close>, or an object of
  some other kind, which only the \<open>default\<close> branch can meet.
\<close>

definition requirementKinds :: "jsstring list" where
  "requirementKinds =
     [str ''triggerIs'', str ''triggerConfigEquals'', str ''mustHaveNode'',
      str ''forbidNodeType'', str ''nodeConfigRequired'', str ''nodeOrder'',
      str ''mustContainIfElse'', str ''branchCountAtLeast'', str ''pathMustInclude'',
      str ''requireStopPath'']"

typedef otherKind = "{t :: jsstring. t \<notin> set requirementKinds}"
  by (rule exI [of _ "[]"]) (simp add: requirementKinds_def str_def)

datatype Requirement =
    TriggerIs NodeType
  | TriggerConfigEquals jsstring jsvalue
  | MustHaveNode NodeType
  | ForbidNodeType NodeType
  | NodeConfigRequired NodeType "jsstring list"
  | NodeOrder "NodeType list"
  | MustContainIfElse "real option"
  | BranchCountAtLeast real
  | PathMustInclude "NodeType list"
  | RequireStopPath
  | OtherRequirement otherKind

text \<open>\<open>requirement.type\<close>\<close>

fun requirementType :: "Requirement \<Rightarrow> jsstring" where
  "requirementType (TriggerIs v) = str ''triggerIs''"
| "requirementType (TriggerConfigEquals f v) = str ''triggerConfigEquals''"
| "requirementType (MustHaveNode v) = str ''mustHaveNode''"
| "requirementType (ForbidNodeType v) = str ''forbidNodeType''"
| "requirementType (NodeConfigRequired n fs) = str ''nodeConfigRequired''"
| "requirementType (NodeOrder sq) = str ''nodeOrder''"
| "requirementType (MustContainIfElse c) = str ''mustContainIfElse''"
| "requirementType (BranchCountAtLeast c) = str ''branchCountAtLeast''"
| "requirementType (PathMustInclude ns) = str ''pathMustInclude''"
| "requirementType RequireStopPath = str ''requireStopPath''"
| "requirementType (OtherRequirement k) = Rep_otherKind k"

subsection \<open>Values of type \<open>any\<close>\<close>

text \<open>
  The parameter of \<open>formatRequirementSummary\<close> has the type \<open>any\<close>. Its values are the
  plain data a scenario file can hold: the primitives, arrays, and objects with their own
  properties (the first pair of a key is its property) whose prototype is
  \<open>Object.prototype\<close>.
\<close>

datatype anyValue =
    AUndefined
  | ANull
  | ABoolean bool
  | ANumber number
  | AString jsstring
  | AArray "anyValue list"
  | AObject "(jsstring \<times> anyValue) list"

text \<open>
  \<open>value.name\<close> for a property name that no built-in prototype defines (\<open>type\<close>,
  \<open>value\<close>, \<open>field\<close>, \<open>nodeType\<close>, \<open>fields\<close>, \<open>sequence\<close>, \<open>minCount\<close>, \<open>count\<close>,
  \<open>nodeTypes\<close>): a TypeError on \<open>null\<close> and \<open>undefined\<close>, the own property of an object,
  and \<open>undefined\<close> on every other value.
\<close>

fun getData :: "anyValue \<Rightarrow> jsstring \<Rightarrow> error + anyValue" where
  "getData AUndefined name = Inl TypeError"
| "getData ANull name = Inl TypeError"
| "getData (AObject properties) name =
     Inr (case map_of properties name of None \<Rightarrow> AUndefined | Some v \<Rightarrow> v)"
| "getData v name = Inr AUndefined"

text \<open>
  \<open>Number.prototype.toString\<close>: the decimal digits of an integer up to \<open>2^53\<close> in
  magnitude; the text of every other finite number is the parameter \<open>otherText\<close>.
\<close>

fun numberToString :: "(rat \<Rightarrow> jsstring) \<Rightarrow> number \<Rightarrow> jsstring" where
  "numberToString otherText NaN = str ''NaN''"
| "numberToString otherText PosInfinity = str ''Infinity''"
| "numberToString otherText NegInfinity = str ''-Infinity''"
| "numberToString otherText NegZero = str ''0''"
| "numberToString otherText (Finite q) =
     (if q = of_int \<lfloor>q\<rfloor> \<and> \<bar>q\<bar> \<le> 2 ^ 53
      then (if q < 0 then str ''-'' @ decimal (nat (- \<lfloor>q\<rfloor>)) else decimal (nat \<lfloor>q\<rfloor>))
      else otherText q)"

text \<open>
  \<open>String(v)\<close>, which is also the conversion a template literal applies, and
  \<open>Array.prototype.join\<close>. An array is converted by joining its elements with a comma;
  \<open>join\<close> takes \<open>null\<close> and \<open>undefined\<close> elements as empty. An object is converted by
  \<open>Object.prototype.toString\<close> unless it has an own property \<open>toString\<close>: that is data
  and cannot be called, and neither \<open>valueOf\<close> gives a primitive, so the conversion throws
  a TypeError.
\<close>

fun ToString :: "(rat \<Rightarrow> jsstring) \<Rightarrow> anyValue \<Rightarrow> error + jsstring"
  and joinArray :: "(rat \<Rightarrow> jsstring) \<Rightarrow> jsstring \<Rightarrow> anyValue list \<Rightarrow> error + jsstring" where
  "ToString otherText AUndefined = Inr (str ''undefined'')"
| "ToString otherText ANull = Inr (str ''null'')"
| "ToString otherText (ABoolean b) = Inr (if b then str ''true'' else str ''false'')"
| "ToString otherText (ANumber n) = Inr (numberToString otherText n)"
| "ToString otherText (AString s) = Inr s"
| "ToString otherText (AArray elements) = joinArray otherText (str '','') elements"
| "ToString otherText (AObject properties) =
     (if str ''toString'' \<in> fst ` set properties then Inl TypeError
      else Inr (str ''[object Object]''))"
| "joinArray otherText sep [] = Inr []"
| "joinArray otherText sep (x # xs) =
     (case (if x = AUndefined \<or> x = ANull then Inr [] else ToString otherText x) of
        Inl e \<Rightarrow> Inl e
      | Inr s \<Rightarrow>
          (if xs = [] then Inr s
           else (case joinArray otherText sep xs of
                   Inl e \<Rightarrow> Inl e
                 | Inr r \<Rightarrow> Inr (s @ sep @ r))))"

text \<open>
  \<open>value.join(sep)\<close> and \<open>value.map(f)\<close>: only an array has these methods; on every other
  value the property is \<open>undefined\<close> or data, and the call throws a TypeError.
\<close>

fun joinCall :: "(rat \<Rightarrow> jsstring) \<Rightarrow> jsstring \<Rightarrow> anyValue \<Rightarrow> error + jsstring" where
  "joinCall otherText sep (AArray elements) = joinArray otherText sep elements"
| "joinCall otherText sep v = Inl TypeError"

fun mapElements :: "('a \<Rightarrow> error + 'b) \<Rightarrow> 'a list \<Rightarrow> error + 'b list" where
  "mapElements f [] = Inr []"
| "mapElements f (x # xs) =
     (case f x of
        Inl e \<Rightarrow> Inl e
      | Inr y \<Rightarrow> (case mapElements f xs of Inl e \<Rightarrow> Inl e | Inr ys \<Rightarrow> Inr (y # ys)))"

fun mapCall :: "(anyValue \<Rightarrow> error + anyValue) \<Rightarrow> anyValue \<Rightarrow> error + anyValue" where
  "mapCall f (AArray elements) = map_sum id AArray (mapElements f elements)"
| "mapCall f v = Inl TypeError"

text \<open>Evaluation in sequence: the first exception ends it.\<close>

definition andThen :: "error + 'a \<Rightarrow> ('a \<Rightarrow> error + 'b) \<Rightarrow> error + 'b" where
  "andThen r f = (case r of Inl e \<Rightarrow> Inl e | Inr x \<Rightarrow> f x)"

text \<open>
  \<open>getNodeDisplayName\<close> is imported from the term catalogue; it is the parameter
  \<open>getNodeDisplayName\<close>, a function of its first argument that returns a value or throws.
\<close>

definition formatRequirementSummary ::
  "(anyValue \<Rightarrow> error + anyValue) \<Rightarrow> (rat \<Rightarrow> jsstring) \<Rightarrow> anyValue \<Rightarrow> error + jsstring" where
  "formatRequirementSummary getNodeDisplayName otherText requirement =
     andThen (getData requirement (str ''type'')) (\<lambda>kind.
       if kind = AString (str ''triggerIs'') then
         andThen (getData requirement (str ''value'')) (\<lambda>v.
         andThen (getNodeDisplayName v) (\<lambda>name.
         andThen (ToString otherText name) (\<lambda>s.
         Inr (str ''Trigger is '' @ s))))
       else if kind = AString (str ''triggerConfigEquals'') then
         andThen (getData requirement (str ''field'')) (\<lambda>field.
         andThen (ToString otherText field) (\<lambda>s1.
         andThen (getData requirement (str ''value'')) (\<lambda>v.
         andThen (ToString otherText v) (\<lambda>s2.
         Inr (str ''Trigger field '' @ s1 @ str '' equals '' @ s2)))))
       else if kind = AString (str ''mustHaveNode'') then
         andThen (getData requirement (str ''value'')) (\<lambda>v.
         andThen (getNodeDisplayName v) (\<lambda>name.
         andThen (ToString otherText name) (\<lambda>s.
         Inr (str ''Includes '' @ s))))
       else if kind = AString (str ''forbidNodeType'') then
         andThen (getData requirement (str ''value'')) (\<lambda>v.
         andThen (getNodeDisplayName v) (\<lambda>name.
         andThen (ToString otherText name) (\<lambda>s.
         Inr (str ''Does not include '' @ s))))
       else if kind = AString (str ''nodeConfigRequired'') then
         andThen (getData requirement (str ''nodeType'')) (\<lambda>nodeType.
         andThen (getNodeDisplayName nodeType) (\<lambda>name.
         andThen (ToString otherText name) (\<lambda>s1.
         andThen (getData requirement (str ''fields'')) (\<lambda>fieldKeys.
         andThen (joinCall otherText (str '', '') fieldKeys) (\<lambda>s2.
         Inr (s1 @ str '' has '' @ s2))))))
       else if kind = AString (str ''nodeOrder'') then
         andThen (getData requirement (str ''sequence'')) (\<lambda>sq.
         andThen (mapCall getNodeDisplayName sq) (\<lambda>names.
         andThen (joinCall otherText (str '' -> '') names) (\<lambda>s.
         Inr (str ''Order: '' @ s))))
       else if kind = AString (str ''mustContainIfElse'') then
         andThen (getData requirement (str ''minCount'')) (\<lambda>minCount.
         andThen (ToString otherText
                    (if minCount = AUndefined \<or> minCount = ANull then ANumber (Finite 1)
                     else minCount)) (\<lambda>s.
         Inr (str ''Has at least '' @ s @ str '' If/Else step'')))
       else if kind = AString (str ''branchCountAtLeast'') then
         andThen (getData requirement (str ''count'')) (\<lambda>count.
         andThen (ToString otherText count) (\<lambda>s.
         Inr (str ''If/Else has at least '' @ s @ str '' paths'')))
       else if kind = AString (str ''pathMustInclude'') then
         andThen (getData requirement (str ''nodeTypes'')) (\<lambda>nodeTypes.
         andThen (mapCall getNodeDisplayName nodeTypes) (\<lambda>names.
         andThen (joinCall otherText (str '', '') names) (\<lambda>s.
         Inr (str ''Includes '' @ s))))
       else if kind = AString (str ''requireStopPath'') then
         Inr (str ''Each path ends when there are no more steps'')
       else Inr (str ''Requirement''))"

subsection \<open>Requirement values that are well formed for their kind\<close>

text \<open>The values whose conversion to a string does not throw.\<close>

fun printable :: "anyValue \<Rightarrow> bool" where
  "printable (AObject properties) = (str ''toString'' \<notin> fst ` set properties)"
| "printable (AArray elements) = list_all printable elements"
| "printable v = True"

text \<open>The values for which \<open>getNodeDisplayName\<close> returns a name that can be printed.\<close>

definition displayable :: "(anyValue \<Rightarrow> error + anyValue) \<Rightarrow> anyValue \<Rightarrow> bool" where
  "displayable getNodeDisplayName v =
     (case getNodeDisplayName v of Inl e \<Rightarrow> False | Inr name \<Rightarrow> printable name)"

text \<open>The property of an object, \<open>undefined\<close> when it has none of that name.\<close>

definition property :: "(jsstring \<times> anyValue) list \<Rightarrow> jsstring \<Rightarrow> anyValue" where
  "property properties name =
     (case map_of properties name of None \<Rightarrow> AUndefined | Some v \<Rightarrow> v)"

text \<open>The kind of a requirement value: its \<open>type\<close> tag, when it is an object with a string tag.\<close>

fun requirementKind :: "anyValue \<Rightarrow> jsstring option" where
  "requirementKind (AObject properties) =
     (case property properties (str ''type'') of AString k \<Rightarrow> Some k | _ \<Rightarrow> None)"
| "requirementKind v = None"

fun isArrayOf :: "(anyValue \<Rightarrow> bool) \<Rightarrow> anyValue \<Rightarrow> bool" where
  "isArrayOf p (AArray elements) = list_all p elements"
| "isArrayOf p v = False"

text \<open>
  A requirement value is well formed when it is neither \<open>null\<close> nor \<open>undefined\<close> and has
  what its kind needs: a node type that has a display name, printable fields, and an array
  where the kind lists field keys or node types.
\<close>

definition wellFormed :: "(anyValue \<Rightarrow> error + anyValue) \<Rightarrow> anyValue \<Rightarrow> bool" where
  "wellFormed getNodeDisplayName requirement =
     (case requirement of
        AUndefined \<Rightarrow> False
      | ANull \<Rightarrow> False
      | AObject ps \<Rightarrow>
          (case requirementKind requirement of
             None \<Rightarrow> True
           | Some k \<Rightarrow>
               (if k = str ''triggerIs'' \<or> k = str ''mustHaveNode'' \<or> k = str ''forbidNodeType''
                then displayable getNodeDisplayName (property ps (str ''value''))
                else if k = str ''triggerConfigEquals''
                then printable (property ps (str ''field'')) \<and> printable (property ps (str ''value''))
                else if k = str ''nodeConfigRequired''
                then displayable getNodeDisplayName (property ps (str ''nodeType''))
                     \<and> isArrayOf printable (property ps (str ''fields''))
                else if k = str ''nodeOrder''
                then isArrayOf (displayable getNodeDisplayName) (property ps (str ''sequence''))
                else if k = str ''mustContainIfElse''
                then printable (property ps (str ''minCount''))
                else if k = str ''branchCountAtLeast''
                then printable (property ps (str ''count''))
                else if k = str ''pathMustInclude''
                then isArrayOf (displayable getNodeDisplayName) (property ps (str ''nodeTypes''))
                else True))
      | _ \<Rightarrow> True)"

text \<open>An example: an SMS step must have its body and its recipient.\<close>

definition fieldsRequirement :: "(jsstring \<times> anyValue) list" where
  "fieldsRequirement =
     [(str ''type'', AString (str ''nodeConfigRequired'')),
      (str ''nodeType'', AString (str ''sms.send'')),
      (str ''fields'', AArray [AString (str ''body''), AString (str ''to'')])]"

subsection \<open>Scenarios\<close>

record AllowedNodes =
  triggers :: "NodeType list"
  actions :: "NodeType list"
  logic :: "NodeType list"

text \<open>
  The expected outcomes of a test case. Tasks and notifications carry a \<open>contains\<close>
  array, messages a channel besides, webhooks a \<open>urlContains\<close> array.
\<close>

record Contains =
  contains :: "jsstring list"

record ExpectedMessage = Contains +
  channel :: jsstring

record FieldEqual =
  itemFieldKey :: jsstring
  itemValue :: jsvalue

record ExpectedWebhook =
  urlContains :: "jsstring list"

record Expect =
  messages :: "ExpectedMessage list option"
  tagsAdded :: "jsstring list option"
  tagsRemoved :: "jsstring list option"
  fieldsEqual :: "FieldEqual list option"
  tasksCreated :: "Contains list option"
  systemTasksCreated :: "Contains list option"
  notifications :: "Contains list option"
  systemNotifications :: "Contains list option"
  webhooksFired :: "ExpectedWebhook list option"

record TestCase =
  caseName :: jsstring
  expect :: Expect

record Scenario =
  scenarioModuleId :: jsstring
  title :: jsstring
  objectives :: "jsstring list option"
  allowedNodes :: AllowedNodes
  requirements :: "Requirement list"
  testCases :: "TestCase list"

record Workflow =
  workflowId :: jsstring
  scenario :: Scenario

record ScenarioBundle =
  bundleModuleId :: jsstring
  bundleTitle :: jsstring
  workflows :: "Workflow list"

text \<open>\<open>"workflows" in scenario\<close> tells a bundle from a single workflow.\<close>

datatype ScenarioDefinition = Single Scenario | Bundle ScenarioBundle

record ExpectedFieldHint =
  hintLabel :: jsstring
  hintValues :: "jsstring list"
  hintNote :: "jsstring option"

type_synonym ExpectedFieldHintsByNode = "NodeType \<rightharpoonup> (jsstring \<rightharpoonup> ExpectedFieldHint)"

text \<open>\<open>Array.from(new Set(xs))\<close>: the elements in the order of their first occurrence.\<close>

definition setInsert :: "'a \<Rightarrow> 'a list \<Rightarrow> 'a list" where
  "setInsert x acc = (if x \<in> set acc then acc else acc @ [x])"

definition arrayFromSet :: "'a list \<Rightarrow> 'a list" where
  "arrayFromSet xs = fold setInsert xs []"

definition cleaned :: "(jsvalue \<Rightarrow> jsstring) \<Rightarrow> jsvalue list \<Rightarrow> jsstring list" where
  "cleaned toText vs =
     filter (\<lambda>v. length (trim v) > 0)
       (map (String_js toText) (filter (\<lambda>v. v \<noteq> JNull \<and> v \<noteq> JUndefined) vs))"

text \<open>\<open>hints[nodeType]?.[fieldKey]\<close>\<close>

definition hintAt :: "ExpectedFieldHintsByNode \<Rightarrow> NodeType \<Rightarrow> jsstring \<Rightarrow> ExpectedFieldHint option" where
  "hintAt hints nodeType fieldKey =
     (case hints nodeType of None \<Rightarrow> None | Some fs \<Rightarrow> fs fieldKey)"

text \<open>
  \<open>collectHint\<close> closes over the local variable \<open>hints\<close> and assigns to it; here it takes
  the hints and returns them updated.
\<close>

definition collectHint ::
  "(jsvalue \<Rightarrow> jsstring) \<Rightarrow> NodeType \<Rightarrow> jsstring \<Rightarrow> jsstring \<Rightarrow> jsvalue list \<Rightarrow> jsstring option \<Rightarrow>
   ExpectedFieldHintsByNode \<Rightarrow> ExpectedFieldHintsByNode" where
  "collectHint toText nodeType fieldKey label vs note hints =
     (let cl = cleaned toText vs
      in if length cl = 0 then hints
         else
           let existing = hintAt hints nodeType fieldKey;
               merged = arrayFromSet
                 ((case existing of None \<Rightarrow> [] | Some e \<Rightarrow> hintValues e) @ cl)
           in hints(nodeType \<mapsto>
                (case hints nodeType of None \<Rightarrow> Map.empty | Some fs \<Rightarrow> fs)
                  (fieldKey \<mapsto>
                     \<lparr>hintLabel = label,
                      hintValues = merged,
                      hintNote = (case (case existing of None \<Rightarrow> None | Some e \<Rightarrow> hintNote e) of
                                    Some n \<Rightarrow> Some n
                                  | None \<Rightarrow> note)\<rparr>)))"

definition messageHints ::
  "(jsvalue \<Rightarrow> jsstring) \<Rightarrow> ExpectedMessage \<Rightarrow> ExpectedFieldHintsByNode \<Rightarrow> ExpectedFieldHintsByNode" where
  "messageHints toText message hints =
     (let h1 = (if channel message = str ''sms''
                then collectHint toText (str ''sms.send'') (str ''body'')
                       (str ''Expected text to include'') (map JString (contains message))
                       (Some (str ''Use these words somewhere in the SMS.'')) hints
                else hints)
      in if channel message = str ''email''
         then collectHint toText (str ''email.send'') (str ''subject'')
                (str ''Suggested keyword'') (map JString (contains message))
                (Some (str ''Short is ok. Use a key word from the body.''))
                (collectHint toText (str ''email.send'') (str ''body'')
                   (str ''Expected text to include'') (map JString (contains message))
                   (Some (str ''Use these words somewhere in the email.'')) h1)
         else h1)"

text \<open>\<open>xs?.length\<close> as a condition: the array is there and is not empty.\<close>

definition hasLength :: "'a list option \<Rightarrow> bool" where
  "hasLength xs = (case xs of None \<Rightarrow> False | Some ys \<Rightarrow> length ys \<noteq> 0)"

text \<open>
  The body of \<open>scenario.testCases.forEach\<close>: its statements, each one a change of
  \<open>hints\<close>, run in the order of the source.
\<close>

definition testCaseHints ::
  "(jsvalue \<Rightarrow> jsstring) \<Rightarrow> TestCase \<Rightarrow> ExpectedFieldHintsByNode \<Rightarrow> ExpectedFieldHintsByNode" where
  "testCaseHints toText testCase hints =
     (let e = expect testCase
      in fold (\<lambda>statement h. statement h)
           [\<lambda>h. (case messages e of None \<Rightarrow> h
                   | Some ms \<Rightarrow> fold (messageHints toText) ms h),
            \<lambda>h. (if hasLength (tagsAdded e)
                  then collectHint toText (str ''tag.add'') (str ''tag'') (str ''Expected tag'')
                         (map JString (the (tagsAdded e))) None h
                  else h),
            \<lambda>h. (if hasLength (tagsRemoved e)
                  then collectHint toText (str ''tag.remove'') (str ''tag'')
                         (str ''Expected tag to remove'') (map JString (the (tagsRemoved e))) None h
                  else h),
            \<lambda>h. (if hasLength (fieldsEqual e)
                  then collectHint toText (str ''field.update'') (str ''value'')
                         (str ''Expected value'') (map itemValue (the (fieldsEqual e))) None
                         (collectHint toText (str ''field.update'') (str ''fieldKey'')
                            (str ''Expected field name'')
                            (map (\<lambda>item. JString (itemFieldKey item)) (the (fieldsEqual e)))
                            None h)
                  else h),
            \<lambda>h. (if hasLength (tasksCreated e)
                  then fold (\<lambda>task. collectHint toText (str ''task.create'') (str ''title'')
                               (str ''Expected words'') (map JString (contains task)) None)
                         (the (tasksCreated e)) h
                  else h),
            \<lambda>h. (if hasLength (systemTasksCreated e)
                  then fold (\<lambda>task. collectHint toText (str ''task.create'') (str ''title'')
                               (str ''Expected words'') (map JString (contains task)) None)
                         (the (systemTasksCreated e)) h
                  else h),
            \<lambda>h. (if hasLength (notifications e)
                  then fold (\<lambda>notification.
                               collectHint toText (str ''user.notify'') (str ''message'')
                                 (str ''Expected words'') (map JString (contains notification)) None)
                         (the (notifications e)) h
                  else h),
            \<lambda>h. (if hasLength (systemNotifications e)
                  then fold (\<lambda>notification.
                               collectHint toText (str ''user.notify'') (str ''message'')
                                 (str ''Expected words'') (map JString (contains notification)) None)
                         (the (systemNotifications e)) h
                  else h),
            \<lambda>h. (if hasLength (webhooksFired e)
                  then fold (\<lambda>webhook. collectHint toText (str ''webhook.send'') (str ''url'')
                               (str ''Expected URL contains'') (map JString (urlContains webhook)) None)
                         (the (webhooksFired e)) h
                  else h)]
           hints)"

definition buildExpectedFieldHints ::
  "(jsvalue \<Rightarrow> jsstring) \<Rightarrow> ScenarioDefinition option \<Rightarrow> ExpectedFieldHintsByNode" where
  "buildExpectedFieldHints toText sc =
     (case sc of
        None \<Rightarrow> Map.empty
      | Some (Bundle b) \<Rightarrow> Map.empty
      | Some (Single s) \<Rightarrow> fold (testCaseHints toText) (testCases s) Map.empty)"

text \<open>The \<open>useMemo\<close> body that computes \<open>singleTriggerMode\<close> in \<open>ModuleShell\<close>.\<close>

definition singleTriggerMode :: "ScenarioDefinition option \<Rightarrow> bool" where
  "singleTriggerMode sc =
     (case sc of
        None \<Rightarrow> False
      | Some (Bundle b) \<Rightarrow> False
      | Some (Single s) \<Rightarrow>
          list_ex (\<lambda>requirement. requirementType requirement = str ''triggerIs'') (requirements s))"

subsection \<open>Example scenario\<close>

definition exampleScenario :: Scenario where
  "exampleScenario =
     \<lparr>scenarioModuleId = str ''M06'', title = str ''Phone or email'',
      objectives = Some [str ''Branch on phone''],
      allowedNodes = \<lparr>triggers = [str ''contact.created''],
                      actions = [str ''sms.send'', str ''email.send''],
                      logic = [str ''if.else'']\<rparr>,
      requirements = [TriggerIs (str ''contact.created''), MustContainIfElse (Some 1)],
      testCases = []\<rparr>"

subsection \<open>Reading the hint map\<close>

text \<open>The values of the hint at a node type and field key; none when there is no hint.\<close>

definition valuesAt :: "ExpectedFieldHintsByNode \<Rightarrow> NodeType \<Rightarrow> jsstring \<Rightarrow> jsstring list" where
  "valuesAt hints nodeType fk =
     (case hintAt hints nodeType fk of None \<Rightarrow> [] | Some e \<Rightarrow> hintValues e)"

subsection \<open>The calls of \<open>collectHint\<close>\<close>

text \<open>
  A call of \<open>collectHint\<close>: node type, field key, label, values, note. The calls that a
  message and a test case make are listed in the order of the source; \<open>valuesFor\<close> picks
  the values that a list of calls passes for one node type and field key.
\<close>

type_synonym hintCall = "NodeType \<times> jsstring \<times> jsstring \<times> jsvalue list \<times> jsstring option"

definition applyCall :: "(jsvalue \<Rightarrow> jsstring) \<Rightarrow> hintCall \<Rightarrow> ExpectedFieldHintsByNode \<Rightarrow> ExpectedFieldHintsByNode" where
  "applyCall t c = (case c of (a, b, l, vs, n) \<Rightarrow> collectHint t a b l vs n)"

definition valuesFor :: "NodeType \<Rightarrow> jsstring \<Rightarrow> hintCall list \<Rightarrow> jsvalue list" where
  "valuesFor nodeType fk calls =
     concat (map (\<lambda>(a, b, l, vs, n). vs) (filter (\<lambda>(a, b, l, vs, n). nodeType = a \<and> fk = b) calls))"

definition orEmpty :: "'a list option \<Rightarrow> 'a list" where
  "orEmpty xs = (case xs of None \<Rightarrow> [] | Some ys \<Rightarrow> ys)"

definition messageCalls :: "ExpectedMessage \<Rightarrow> hintCall list" where
  "messageCalls message =
     (if channel message = str ''sms''
      then [(str ''sms.send'', str ''body'', str ''Expected text to include'',
             map JString (contains message), Some (str ''Use these words somewhere in the SMS.''))]
      else []) @
     (if channel message = str ''email''
      then [(str ''email.send'', str ''body'', str ''Expected text to include'',
             map JString (contains message), Some (str ''Use these words somewhere in the email.'')),
            (str ''email.send'', str ''subject'', str ''Suggested keyword'',
             map JString (contains message), Some (str ''Short is ok. Use a key word from the body.''))]
      else [])"

definition testCaseCalls :: "TestCase \<Rightarrow> hintCall list" where
  "testCaseCalls testCase =
     (let e = expect testCase
      in concat (map messageCalls (orEmpty (messages e))) @
         (if hasLength (tagsAdded e)
          then [(str ''tag.add'', str ''tag'', str ''Expected tag'',
                 map JString (orEmpty (tagsAdded e)), None)] else []) @
         (if hasLength (tagsRemoved e)
          then [(str ''tag.remove'', str ''tag'', str ''Expected tag to remove'',
                 map JString (orEmpty (tagsRemoved e)), None)] else []) @
         (if hasLength (fieldsEqual e)
          then [(str ''field.update'', str ''fieldKey'', str ''Expected field name'',
                 map (\<lambda>item. JString (itemFieldKey item)) (orEmpty (fieldsEqual e)), None),
                (str ''field.update'', str ''value'', str ''Expected value'',
                 map itemValue (orEmpty (fieldsEqual e)), None)] else []) @
         map (\<lambda>task. (str ''task.create'', str ''title'', str ''Expected words'',
                       map JString (contains task), None)) (orEmpty (tasksCreated e)) @
         map (\<lambda>task. (str ''task.create'', str ''title'', str ''Expected words'',
                       map JString (contains task), None)) (orEmpty (systemTasksCreated e)) @
         map (\<lambda>x. (str ''user.notify'', str ''message'', str ''Expected words'',
                    map JString (contains x), None)) (orEmpty (notifications e)) @
         map (\<lambda>x. (str ''user.notify'', str ''message'', str ''Expected words'',
                    map JString (contains x), None)) (orEmpty (systemNotifications e)) @
         map (\<lambda>w. (str ''webhook.send'', str ''url'', str ''Expected URL contains'',
                    map JString (urlContains w), None)) (orEmpty (webhooksFired e)))"

text \<open>
  The routing table as the specification words it: the values that the expected outcomes
  of one test case contribute to a node type and field key.
\<close>

definition routedValues :: "TestCase \<Rightarrow> NodeType \<Rightarrow> jsstring \<Rightarrow> jsvalue list" where
  "routedValues testCase nodeType fk =
     (let e = expect testCase
      in if nodeType = str ''sms.send'' \<and> fk = str ''body''
         then map JString (concat (map contains
                (filter (\<lambda>m. channel m = str ''sms'') (orEmpty (messages e)))))
         else if nodeType = str ''email.send'' \<and> (fk = str ''body'' \<or> fk = str ''subject'')
         then map JString (concat (map contains
                (filter (\<lambda>m. channel m = str ''email'') (orEmpty (messages e)))))
         else if nodeType = str ''tag.add'' \<and> fk = str ''tag''
         then map JString (orEmpty (tagsAdded e))
         else if nodeType = str ''tag.remove'' \<and> fk = str ''tag''
         then map JString (orEmpty (tagsRemoved e))
         else if nodeType = str ''field.update'' \<and> fk = str ''fieldKey''
         then map (\<lambda>item. JString (itemFieldKey item)) (orEmpty (fieldsEqual e))
         else if nodeType = str ''field.update'' \<and> fk = str ''value''
         then map itemValue (orEmpty (fieldsEqual e))
         else if nodeType = str ''task.create'' \<and> fk = str ''title''
         then map JString (concat (map contains
                (orEmpty (tasksCreated e) @ orEmpty (systemTasksCreated e))))
         else if nodeType = str ''user.notify'' \<and> fk = str ''message''
         then map JString (concat (map contains
                (orEmpty (notifications e) @ orEmpty (systemNotifications e))))
         else if nodeType = str ''webhook.send'' \<and> fk = str ''url''
         then map JString (concat (map urlContains (orEmpty (webhooksFired e))))
         else [])"

text \<open>The note of the hint at a node type and field key, and the first note that a list
  of calls contributes to it.\<close>

definition noteAt :: "ExpectedFieldHintsByNode \<Rightarrow> NodeType \<Rightarrow> jsstring \<Rightarrow> jsstring option" where
  "noteAt hints nodeType fk =
     (case hintAt hints nodeType fk of None \<Rightarrow> None | Some e \<Rightarrow> hintNote e)"

fun firstNote :: "(jsvalue \<Rightarrow> jsstring) \<Rightarrow> NodeType \<Rightarrow> jsstring \<Rightarrow> hintCall list \<Rightarrow> jsstring option" where
  "firstNote t nodeType fk [] = None"
| "firstNote t nodeType fk ((a, b, l, vs, n) # cs) =
     (if nodeType = a \<and> fk = b \<and> cleaned t vs \<noteq> [] \<and> n \<noteq> None then n
      else firstNote t nodeType fk cs)"

subsection \<open>Example test cases\<close>

definition noExpect :: Expect where
  "noExpect = \<lparr>messages = None, tagsAdded = None, tagsRemoved = None, fieldsEqual = None,
     tasksCreated = None, systemTasksCreated = None, notifications = None,
     systemNotifications = None, webhooksFired = None\<rparr>"

definition smsCase :: TestCase where
  "smsCase = \<lparr>caseName = str ''Contact has phone'',
     expect = noExpect\<lparr>messages :=
       Some [\<lparr>contains = [str ''Welcome'', str '' ''], channel = str ''sms''\<rparr>]\<rparr>\<rparr>"

definition emailCase :: TestCase where
  "emailCase = \<lparr>caseName = str ''Contact has no phone'',
     expect = noExpect\<lparr>messages :=
       Some [\<lparr>contains = [str ''Welcome''], channel = str ''email''\<rparr>]\<rparr>\<rparr>"

definition exampleCases :: ScenarioDefinition where
  "exampleCases = Single (exampleScenario\<lparr>testCases := [smsCase, emailCase, smsCase]\<rparr>)"

section \<open>Outcome comparator\<close>

text \<open>
  Modelled from the spec: the effect records of a simulation run (section 3, "Effect
  Trace"). The simulator and the comparator are not among the source files; an effect
  record is a tagged variant mirroring the expected-outcome kinds and carries the values
  of the executing node.
\<close>

datatype Effect =
    MessageSent jsstring jsstring
  | TagAdded jsstring
  | TagRemoved jsstring
  | FieldSet jsstring jsvalue
  | TaskCreated jsstring
  | NotificationSent jsstring
  | WebhookFired jsstring

text \<open>
  Modelled from the spec: the trace that \<open>simulate\<close> returns (section 4.3), either the
  ordered effect records of the run or the empty trace tagged "trigger mismatch".
\<close>

datatype EffectTrace = TriggerMismatch | Fired "Effect list"

text \<open>Modelled from the spec: the records of a trace; the mismatch trace is empty.\<close>

fun records :: "EffectTrace \<Rightarrow> Effect list" where
  "records TriggerMismatch = []"
| "records (Fired es) = es"

text \<open>
  Modelled from the spec: one expected assertion (section 3, "Test Case"): a message
  send (channel and substrings), a tag added or removed, a field equality, a task
  (title substrings), a notification (message substrings), a webhook (URL substrings).
\<close>

datatype Assertion =
    ExpectMessage jsstring "jsstring list"
  | ExpectTagAdded jsstring
  | ExpectTagRemoved jsstring
  | ExpectFieldEqual jsstring jsvalue
  | ExpectTask "jsstring list"
  | ExpectNotification "jsstring list"
  | ExpectWebhook "jsstring list"

text \<open>Modelled from the spec: substring match, as \<open>String.prototype.includes\<close>.\<close>

fun startsWith :: "'a list \<Rightarrow> 'a list \<Rightarrow> bool" where
  "startsWith s [] = True"
| "startsWith [] (x # xs) = False"
| "startsWith (c # cs) (x # xs) = (c = x \<and> startsWith cs xs)"

fun includesStr :: "'a list \<Rightarrow> 'a list \<Rightarrow> bool" where
  "includesStr [] sub = (sub = [])"
| "includesStr (c # cs) sub = (startsWith (c # cs) sub \<or> includesStr cs sub)"

text \<open>
  Modelled from the spec: an assertion matches a record of its own kind whose values
  satisfy it (section 4.4: substring and equality rules mirrored from section 3).
\<close>

fun matches :: "Assertion \<Rightarrow> Effect \<Rightarrow> bool" where
  "matches (ExpectMessage ch subs) (MessageSent ch' body) =
     (ch = ch' \<and> list_all (includesStr body) subs)"
| "matches (ExpectTagAdded tag) (TagAdded tag') = (tag = tag')"
| "matches (ExpectTagRemoved tag) (TagRemoved tag') = (tag = tag')"
| "matches (ExpectFieldEqual k v) (FieldSet k' v') = (k = k' \<and> v = v')"
| "matches (ExpectTask subs) (TaskCreated t) = list_all (includesStr t) subs"
| "matches (ExpectNotification subs) (NotificationSent m) = list_all (includesStr m) subs"
| "matches (ExpectWebhook subs) (WebhookFired url) = list_all (includesStr url) subs"
| "matches a e = False"

text \<open>Modelled from the spec: the result of one assertion in a comparison.\<close>

datatype AssertionResult = Matched | NotFound | DidNotFire

text \<open>
  Modelled from the spec: \<open>compare(trace, expectedOutcomes)\<close> (section 4.4). The result
  enumerates, per expected assertion, whether a matching record was found; after a
  trigger mismatch every assertion is reported "test case did not fire"; the test case
  passes when every assertion is matched.
\<close>

record ComparisonResult =
  results :: "(Assertion \<times> AssertionResult) list"
  passed :: bool

definition assertionResult :: "EffectTrace \<Rightarrow> Assertion \<Rightarrow> AssertionResult" where
  "assertionResult trace a =
     (case trace of
        TriggerMismatch \<Rightarrow> DidNotFire
      | Fired es \<Rightarrow> (if list_ex (matches a) es then Matched else NotFound))"

definition compare :: "EffectTrace \<Rightarrow> Assertion list \<Rightarrow> ComparisonResult" where
  "compare trace expected =
     (let rs = map (\<lambda>a. (a, assertionResult trace a)) expected
      in \<lparr>results = rs, passed = list_all (\<lambda>(a, r). r = Matched) rs\<rparr>)"

text \<open>The kind of an assertion and of a record, to state "of the correct kind".\<close>

datatype OutcomeKind =
  MessageKind | TagAddedKind | TagRemovedKind | FieldKind | TaskKind | NotificationKind
  | WebhookKind

fun assertionKind :: "Assertion \<Rightarrow> OutcomeKind" where
  "assertionKind (ExpectMessage c s) = MessageKind"
| "assertionKind (ExpectTagAdded t) = TagAddedKind"
| "assertionKind (ExpectTagRemoved t) = TagRemovedKind"
| "assertionKind (ExpectFieldEqual k v) = FieldKind"
| "assertionKind (ExpectTask s) = TaskKind"
| "assertionKind (ExpectNotification s) = NotificationKind"
| "assertionKind (ExpectWebhook s) = WebhookKind"

fun effectKind :: "Effect \<Rightarrow> OutcomeKind" where
  "effectKind (MessageSent c b) = MessageKind"
| "effectKind (TagAdded t) = TagAddedKind"
| "effectKind (TagRemoved t) = TagRemovedKind"
| "effectKind (FieldSet k v) = FieldKind"
| "effectKind (TaskCreated t) = TaskKind"
| "effectKind (NotificationSent m) = NotificationKind"
| "effectKind (WebhookFired u) = WebhookKind"

section \<open>Properties\<close>

subsection \<open>Strings\<close>

lemma of_char_word_eq_iff: "(of_char c :: 16 word) = of_char d \<longleftrightarrow> c = d"
proof
  assume "(of_char c :: 16 word) = of_char d"
  then have "(of_nat (of_char c) :: 16 word) = of_nat (of_char d)"
    by (simp only: of_nat_of_char)
  then have "unat (of_nat (of_char c :: nat) :: 16 word) = unat (of_nat (of_char d :: nat) :: 16 word)"
    by simp
  moreover have "(of_char c :: nat) < 256" "(of_char d :: nat) < 256"
    using of_char_mod_256 [of c, where ?'a = nat] of_char_mod_256 [of d, where ?'a = nat]
    by (metis mod_less_divisor zero_less_numeral)+
  ultimately have "(of_char c :: nat) = of_char d"
    by (simp add: unat_of_nat)
  then show "c = d" by simp
qed simp

lemma str_eq_iff: "str a = str b \<longleftrightarrow> a = b"
  by (simp add: str_def inj_map_eq_map inj_def of_char_word_eq_iff)

subsection \<open>Numbers\<close>

lemma roundTiesEven_of_int: "roundTiesEven (of_int k) = k"
  by (simp add: roundTiesEven_def)

lemma pow2_pos: "0 < pow2 e"
  by (simp add: pow2_def)

lemma binaryExponent_of_int:
  assumes "0 < m"
  shows "binaryExponent (of_int m) = bitlen m - 1"
proof -
  have b: "2 ^ nat (bitlen m - 1) \<le> m" using bitlen_bounds [OF assms] by simp
  have p: "1 \<le> bitlen m" using assms bitlen_eq_zero_iff [of m] bitlen_nonneg [of m] by linarith
  have "bitlen 1 = 1" by (simp add: bitlen_alt_def)
  then have e: "bitlen (fst (quotient_of (of_int m))) - bitlen (snd (quotient_of (of_int m)))
      = bitlen m - 1" by simp
  have "pow2 (bitlen m - 1) = 2 ^ nat (bitlen m - 1)" using p by (simp add: pow2_def)
  also have "\<dots> \<le> of_int m" using b by (metis of_int_le_iff of_int_numeral of_int_power)
  finally show ?thesis unfolding binaryExponent_def e Let_def by simp
qed

lemma bitlen_le_54:
  assumes "0 < m" and "m \<le> 2 ^ 53"
  shows "bitlen m \<le> 54"
proof (rule ccontr)
  assume "\<not> bitlen m \<le> 54"
  then have "55 \<le> bitlen m" by simp
  then have "(2::int) ^ 54 \<le> 2 ^ nat (bitlen m - 1)"
    by (intro power_increasing) auto
  also have "\<dots> \<le> m" using bitlen_bounds [OF assms(1)] by simp
  finally show False using assms(2) by simp
qed

lemma bitlen_53:
  assumes "0 < m" and "m < 2 ^ 53"
  shows "bitlen m \<le> 53"
proof (rule ccontr)
  assume "\<not> bitlen m \<le> 53"
  then have "54 \<le> bitlen m" by simp
  then have "(2::int) ^ 53 \<le> 2 ^ nat (bitlen m - 1)"
    by (intro power_increasing) auto
  also have "\<dots> \<le> m" using bitlen_bounds [OF assms(1)] by simp
  finally show False using assms(2) by simp
qed


lemma pow2_le_52: "e \<le> 52 \<Longrightarrow> pow2 (e - 52) = 1 / 2 ^ nat (52 - e)"
  by (cases "e = 52") (simp_all add: pow2_def)

lemma round_scaled_small:
  assumes "e \<le> 52"
  shows "of_int (roundTiesEven (of_int m / pow2 (e - 52))) * pow2 (e - 52) = (of_int m :: rat)"
proof -
  let ?k = "nat (52 - e)"
  have p: "pow2 (e - 52) = 1 / 2 ^ ?k" using assms by (rule pow2_le_52)
  have "of_int m / pow2 (e - 52) = (of_int (m * 2 ^ ?k) :: rat)"
    unfolding p by simp
  then have "roundTiesEven (of_int m / pow2 (e - 52)) = m * 2 ^ ?k"
    by (simp only: roundTiesEven_of_int)
  then show ?thesis unfolding p by simp
qed

lemma pow2_1024_gt: "x \<le> 2 ^ 53 \<Longrightarrow> \<not> pow2 1024 \<le> x"
proof -
  assume "x \<le> 2 ^ 53"
  also have "(2::rat) ^ 53 < 2 ^ 1024" by (rule power_strict_increasing) simp_all
  also have "(2::rat) ^ 1024 = pow2 1024" unfolding pow2_def by (simp del: power_numeral)
  finally show ?thesis by simp
qed

lemma roundTiesEven_half_even: "even k \<Longrightarrow> roundTiesEven (of_int k + 1 / 2) = k"
proof -
  assume ev: "even k"
  have f: "\<lfloor>(of_int k :: rat) + 1 / 2\<rfloor> = k" by linarith
  show ?thesis unfolding roundTiesEven_def f Let_def using ev by simp
qed

lemma roundDouble_of_int:
  assumes "m \<noteq> 0" and "\<bar>m\<bar> \<le> 2 ^ 53"
  shows "roundDouble (of_int m) = Finite (of_int m)"
proof -
  let ?a = "\<bar>m\<bar>"
  define e where "e = bitlen ?a - 1"
  have a: "0 < ?a" using assms(1) by simp
  have be: "binaryExponent \<bar>of_int m\<bar> = e"
    using binaryExponent_of_int [OF a] by (simp add: e_def)
  have e0: "0 \<le> e"
    using a bitlen_eq_zero_iff [of ?a] bitlen_nonneg [of ?a] unfolding e_def by linarith
  have e53: "e \<le> 53" using bitlen_le_54 [OF a assms(2)] by (simp add: e_def)
  have mx: "max e (- 1022) = e" using e0 by simp
  have r: "of_int (roundTiesEven (of_int m / pow2 (e - 52))) * pow2 (e - 52) = (of_int m :: rat)"
  proof (cases "e \<le> 52")
    case True
    then show ?thesis by (rule round_scaled_small)
  next
    case False
    with e53 have e: "e = 53" by simp
    then have "(2::int) ^ 53 \<le> ?a" using bitlen_bounds [OF a] by (simp add: e_def)
    with assms(2) have "?a = 2 ^ 53" by simp
    then have "m = 2 * 2 ^ 52 \<or> m = 2 * (- (2 ^ 52))" by (auto simp: abs_if split: if_splits)
    then obtain k where k: "m = 2 * k" by blast
    have p: "pow2 (53 - 52) = 2" by (simp add: pow2_def)
    have "of_int m / pow2 (53 - 52) = (of_int k :: rat)" unfolding p k by simp
    then have "roundTiesEven (of_int m / pow2 (53 - 52)) = k" by (simp only: roundTiesEven_of_int)
    then show ?thesis unfolding e p by (simp add: k)
  qed
  have big: "\<not> pow2 1024 \<le> \<bar>(of_int m :: rat)\<bar>"
  proof (rule pow2_1024_gt)
    have "\<bar>(of_int m :: rat)\<bar> = of_int ?a" by simp
    also have "\<dots> \<le> of_int (2 ^ 53)" using assms(2) by (simp only: of_int_le_iff)
    finally show "\<bar>(of_int m :: rat)\<bar> \<le> 2 ^ 53" by simp
  qed
  have nz: "(of_int m :: rat) \<noteq> 0" using assms(1) by simp
  show ?thesis
    unfolding roundDouble_def be mx Let_def r
    using nz big by (simp only: if_False)
qed

lemma plusOne_safe:
  assumes "\<bar>n\<bar> < 2 ^ 53"
  shows "plusOne (Finite (of_int n)) = Finite (of_int (n + 1))"
proof (cases "n + 1 = 0")
  case True
  then have "(of_int n :: rat) + 1 = 0" by (metis of_int_1 of_int_add of_int_0)
  then show ?thesis using True by (simp add: roundDouble_def)
next
  case False
  from assms have "\<bar>n + 1\<bar> \<le> 2 ^ 53" by simp
  from roundDouble_of_int [OF False this] show ?thesis by simp
qed

lemma bitlen_eqI:
  assumes "2 ^ k \<le> m" and "m < 2 ^ Suc k"
  shows "bitlen m = int (Suc k)"
proof -
  have m: "0 < m" using assms(1) by (smt (verit) zero_less_power)
  from bitlen_bounds [OF m]
  have l: "2 ^ nat (bitlen m - 1) \<le> m" and u: "m < 2 ^ nat (bitlen m)" by simp_all
  have "\<not> bitlen m \<le> int k"
  proof
    assume "bitlen m \<le> int k"
    then have "(2::int) ^ nat (bitlen m) \<le> 2 ^ k" by (intro power_increasing) auto
    with u assms(1) show False by simp
  qed
  moreover have "\<not> int k + 2 \<le> bitlen m"
  proof
    assume "int k + 2 \<le> bitlen m"
    then have "(2::int) ^ Suc k \<le> 2 ^ nat (bitlen m - 1)" by (intro power_increasing) auto
    with l assms(2) show False by simp
  qed
  ultimately show ?thesis by simp
qed

lemma plusOne_at_2_53:
  "plusOne (Finite (2 ^ 53)) = Finite (2 ^ 53)"
proof -
  let ?m = "(2::int) ^ 53 + 1"
  have m: "0 < ?m" by simp
  have b: "bitlen ?m = 54"
    using bitlen_eqI [of 53 ?m] by simp
  have q: "(2::rat) ^ 53 + 1 = of_int ?m" by simp
  have nz: "(2::rat) ^ 53 + 1 \<noteq> 0" by simp
  have e: "binaryExponent \<bar>(2::rat) ^ 53 + 1\<bar> = 53"
    unfolding q using binaryExponent_of_int [OF m] b by simp
  have p: "pow2 (53 - 52) = 2" by (simp add: pow2_def)
  have "((2::rat) ^ 53 + 1) / 2 = of_int (2 ^ 52) + 1 / 2" by simp
  then have t: "roundTiesEven (((2::rat) ^ 53 + 1) / 2) = 2 ^ 52"
    using roundTiesEven_half_even [of "2 ^ 52"] by simp
  have r: "of_int (roundTiesEven (((2::rat) ^ 53 + 1) / pow2 (53 - 52))) * pow2 (53 - 52)
      = (2::rat) ^ 53"
    unfolding p t by simp
  have big: "\<not> pow2 1024 \<le> \<bar>(2::rat) ^ 53\<bar>" by (rule pow2_1024_gt) simp
  have mx: "max (53::int) (- 1022) = 53" by simp
  have z: "(2::rat) ^ 53 \<noteq> 0" by simp
  show ?thesis
    unfolding plusOne.simps roundDouble_def e mx Let_def r
    using nz big z by (simp only: if_False)
qed

subsection \<open>Trimming\<close>

lemma all_dropWhile_iff: "(\<forall>x \<in> set (dropWhile P xs). P x) \<longleftrightarrow> (\<forall>x \<in> set xs. P x)"
proof
  assume a: "\<forall>x \<in> set (dropWhile P xs). P x"
  have "dropWhile P xs = []"
  proof (rule ccontr)
    assume ne: "dropWhile P xs \<noteq> []"
    then have "\<not> P (hd (dropWhile P xs))" by (rule hd_dropWhile)
    moreover from ne have "hd (dropWhile P xs) \<in> set (dropWhile P xs)" by simp
    ultimately show False using a by blast
  qed
  then show "\<forall>x \<in> set xs. P x" by (simp add: dropWhile_eq_Nil_conv)
next
  assume "\<forall>x \<in> set xs. P x"
  then show "\<forall>x \<in> set (dropWhile P xs). P x" by (blast dest: set_dropWhileD)
qed

lemma trim_empty_iff: "trim s = [] \<longleftrightarrow> (\<forall>c \<in> set s. isWhiteSpace c)"
  by (simp add: trim_def all_dropWhile_iff)

text \<open>
  C1. \<open>isFieldMissing v\<close> is true exactly when \<open>v\<close> is \<open>undefined\<close>, \<open>null\<close>, or a
  string whose length after trimming is zero; every other value, the number 0 and the
  boolean false among them, counts as present.
\<close>

theorem isFieldMissing_iff:
  "(isFieldMissing v =
      (v = JUndefined \<or> v = JNull \<or> (\<exists>s. v = JString s \<and> length (trim s) = 0)))
   \<and> isFieldMissing (JNumber 0) = False
   \<and> isFieldMissing (JBoolean False) = False"
  by (cases v) simp_all

subsection \<open>Progress\<close>

lemma indexOf_absent: "x \<notin> set xs \<Longrightarrow> indexOf xs x = - 1"
  by (induction xs) (auto simp: Let_def)

lemma own_assignModule:
  "k \<noteq> str ''__proto__'' \<Longrightarrow>
   assignModule ms k obj = ms\<lparr>own := (own ms)(k \<mapsto> PObject obj)\<rparr>"
  by (simp add: assignModule_def)

lemma fold_assign_default:
  "str ''__proto__'' \<notin> moduleId ` set manifest \<Longrightarrow>
   fold (\<lambda>entry ms. assignModule ms (moduleId entry) defaultModule) manifest ms =
     ms\<lparr>own := (\<lambda>k. if k \<in> moduleId ` set manifest then Some (PObject defaultModule)
                       else own ms k)\<rparr>"
proof (induction manifest arbitrary: ms)
  case Nil
  then show ?case by simp
next
  case (Cons e es)
  then have a: "moduleId e \<noteq> str ''__proto__''" and b: "str ''__proto__'' \<notin> moduleId ` set es"
    by auto
  show ?case
    by (simp add: Cons.IH [OF b] own_assignModule [OF a] fun_eq_iff)
qed

lemma modules_buildDefaultProgress:
  "str ''__proto__'' \<notin> moduleId ` set manifest \<Longrightarrow>
   modules (buildDefaultProgress manifest) =
     \<lparr>own = (\<lambda>k. if k \<in> moduleId ` set manifest then Some (PObject defaultModule) else None),
      proto = None\<rparr>"
  by (auto simp: buildDefaultProgress_def fold_assign_default fun_eq_iff)

lemma defaultModule_props:
  "statusProp defaultModule = Some Available"
  "attemptsProp defaultModule = Some \<lparr>validate = Finite 0, simulate = Finite 0\<rparr>"
  "teachBackProp defaultModule = Some []"
  by (simp_all add: defaultModule_def moduleObject_def emptyObject_def)

lemma mergeModule_baseline:
  assumes "str ''__proto__'' \<notin> moduleId ` set manifest" "k \<in> moduleId ` set manifest"
  shows "mergeModule (buildDefaultProgress manifest) k sm = Inr (moduleObject (mergedModule sm))"
proof -
  have g: "modulesGet (modules (buildDefaultProgress manifest)) k = Some (PObject defaultModule)"
    using assms by (simp add: modules_buildDefaultProgress modulesGet_def)
  show ?thesis
    by (cases "savedStatus sm"; cases "savedAttempts sm"; cases "savedTeachBack sm")
       (auto simp: mergeModule_def g Let_def defaultModule_props mergedModule_def moduleObject_def
          split: ModuleStatus.splits)
qed

lemma mergeLoop_result:
  assumes p: "str ''__proto__'' \<notin> moduleId ` set manifest"
    and sub: "set es \<subseteq> set manifest"
  shows "mergeLoop sv (buildDefaultProgress manifest) es merged =
     Inr (merged\<lparr>own := (\<lambda>k. if k \<in> moduleId ` set es then
                               (case savedModuleAt sv k of
                                  None \<Rightarrow> own merged k
                                | Some sm \<Rightarrow> Some (PObject (moduleObject (mergedModule sm))))
                             else own merged k)\<rparr>)"
  using sub
proof (induction es arbitrary: merged)
  case Nil
  then show ?case by simp
next
  case (Cons e es)
  then have sub': "set es \<subseteq> set manifest" and e: "moduleId e \<in> moduleId ` set manifest"
    by auto
  from e p have ne: "moduleId e \<noteq> str ''__proto__''" by auto
  show ?case
  proof (cases "savedModuleAt sv (moduleId e)")
    case None
    then show ?thesis
      by (auto simp: Cons.IH [OF sub'] fun_eq_iff intro!: ModulesObject.equality)
  next
    case (Some sm)
    then show ?thesis
      by (auto simp: Cons.IH [OF sub'] mergeModule_baseline [OF p e] own_assignModule [OF ne]
          fun_eq_iff intro!: ModulesObject.equality split: option.splits)
  qed
qed

lemma savedModuleAt_inherited:
  "savedModuleAt sv k = Some sm \<Longrightarrow> savedOwn (Some sv) k = None \<Longrightarrow>
   mergedModule sm = \<lparr>status = Available, attempts = \<lparr>validate = Finite 0, simulate = Finite 0\<rparr>,
                      teachBack = []\<rparr>"
  by (auto simp: savedModuleAt_def savedOwn_def mergedModule_def split: option.splits if_splits)

lemma savedModuleAt_own:
  "savedOwn (Some sv) k = Some sm \<Longrightarrow> savedModuleAt sv k = Some sm"
  by (auto simp: savedModuleAt_def savedOwn_def split: option.splits)

lemma savedModuleAt_None:
  "savedModuleAt sv k = None \<Longrightarrow> savedOwn (Some sv) k = None"
  by (auto simp: savedModuleAt_def savedOwn_def split: option.splits if_splits)

lemma merged_saved:
  "(case savedModuleAt sv k of
      None \<Rightarrow> Some (PObject defaultModule)
    | Some sm \<Rightarrow> Some (PObject (moduleObject (mergedModule sm)))) =
   (case savedOwn (Some sv) k of
      None \<Rightarrow> Some (PObject defaultModule)
    | Some sm \<Rightarrow> Some (PObject (moduleObject (mergedModule sm))))"
proof (cases "savedModuleAt sv k")
  case None
  then show ?thesis by (simp add: savedModuleAt_None)
next
  case (Some sm)
  show ?thesis
  proof (cases "savedOwn (Some sv) k")
    case None
    with Some show ?thesis
      by (simp add: savedModuleAt_inherited [OF Some None] defaultModule_def)
  next
    case (Some sm')
    from savedModuleAt_own [OF Some] show ?thesis by (simp add: Some)
  qed
qed

lemma mergeProgress_Inr:
  assumes p: "str ''__proto__'' \<notin> moduleId ` set manifest"
  shows "\<exists>s. mergeProgress manifest saved = Inr s \<and> proto (modules s) = None
     \<and> (\<forall>k. own (modules s) k =
        (if k \<in> moduleId ` set manifest then
           (case savedOwn saved k of
              None \<Rightarrow> Some (PObject defaultModule)
            | Some sm \<Rightarrow> Some (PObject (moduleObject (mergedModule sm))))
         else None))"
proof (cases saved)
  case None
  then show ?thesis
    by (simp add: mergeProgress_def modules_buildDefaultProgress [OF p] savedOwn_def)
next
  case (Some sv)
  have "\<And>k. k \<in> moduleId ` set manifest \<Longrightarrow>
      (case savedModuleAt sv k of
         None \<Rightarrow> Some (PObject defaultModule)
       | Some sm \<Rightarrow> Some (PObject (moduleObject (mergedModule sm)))) =
      (case savedOwn (Some sv) k of
         None \<Rightarrow> Some (PObject defaultModule)
       | Some sm \<Rightarrow> Some (PObject (moduleObject (mergedModule sm))))"
    by (rule merged_saved)
  then show ?thesis
    using Some
    by (simp add: mergeProgress_def Let_def mergeLoop_result [OF p subset_refl]
        modules_buildDefaultProgress [OF p] cong: option.case_cong)
qed

text \<open>
  C8 as stated fails: for a manifest whose only module id is \<open>__proto__\<close> the assignment
  \<open>modules[entry.moduleId] = ...\<close> sets the prototype of \<open>modules\<close> and adds no key, so
  the returned state has no module ids.
\<close>

theorem mergeProgress_modules_counterexample:
  "mergeProgress [\<lparr>moduleId = str ''__proto__'', entryTitle = str ''One'', entryPhase = str ''1''\<rparr>]
     None = Inr \<lparr>modules = \<lparr>own = Map.empty, proto = Some defaultModule\<rparr>\<rparr>"
  by (simp add: mergeProgress_def buildDefaultProgress_def assignModule_def)

text \<open>
  C8, amended. For every manifest none of whose module ids is \<open>__proto__\<close> and every
  saved state, \<open>mergeProgress\<close> returns (it does not throw) a state whose module ids are
  exactly the manifest's: saved entries of other modules are dropped, a module without a
  saved entry is "available" with zero attempts and an empty teach-back, and a saved
  "locked" becomes "available" (the other saved statuses, the attempts and the teach-back
  are kept, and what the saved entry lacks is taken from the default).
\<close>

theorem mergeProgress_modules:
  "str ''__proto__'' \<notin> moduleId ` set manifest \<longrightarrow>
   (\<exists>s. mergeProgress manifest saved = Inr s
     \<and> proto (modules s) = None
     \<and> dom (own (modules s)) = moduleId ` set manifest
     \<and> (\<forall>k \<in> moduleId ` set manifest. savedOwn saved k = None \<longrightarrow>
          own (modules s) k =
            Some (PObject (moduleObject \<lparr>status = Available,
                    attempts = \<lparr>validate = Finite 0, simulate = Finite 0\<rparr>, teachBack = []\<rparr>)))
     \<and> (\<forall>k \<in> moduleId ` set manifest. \<forall>sm. savedOwn saved k = Some sm \<longrightarrow>
          (\<exists>m. own (modules s) k = Some (PObject (moduleObject m))
             \<and> (savedStatus sm = Some Locked \<longrightarrow> status m = Available)
             \<and> (savedStatus sm = Some Available \<longrightarrow> status m = Available)
             \<and> (savedStatus sm = Some Completed \<longrightarrow> status m = Completed)
             \<and> (savedStatus sm = None \<longrightarrow> status m = Available)
             \<and> attempts m = (case savedAttempts sm of
                               None \<Rightarrow> \<lparr>validate = Finite 0, simulate = Finite 0\<rparr> | Some a \<Rightarrow> a)
             \<and> teachBack m = (case savedTeachBack sm of None \<Rightarrow> [] | Some t \<Rightarrow> t))))"
proof
  assume p: "str ''__proto__'' \<notin> moduleId ` set manifest"
  from mergeProgress_Inr [OF p, of saved] obtain s where
    s: "mergeProgress manifest saved = Inr s" and pr: "proto (modules s) = None"
    and m: "\<And>k. own (modules s) k =
        (if k \<in> moduleId ` set manifest then
           (case savedOwn saved k of
              None \<Rightarrow> Some (PObject defaultModule)
            | Some sm \<Rightarrow> Some (PObject (moduleObject (mergedModule sm))))
         else None)" by blast
  have d: "dom (own (modules s)) = moduleId ` set manifest"
    by (auto simp: dom_def m split: option.splits if_splits)
  have a: "\<forall>k \<in> moduleId ` set manifest. savedOwn saved k = None \<longrightarrow>
          own (modules s) k =
            Some (PObject (moduleObject \<lparr>status = Available,
                    attempts = \<lparr>validate = Finite 0, simulate = Finite 0\<rparr>, teachBack = []\<rparr>))"
    by (simp add: m defaultModule_def)
  have b: "\<forall>k \<in> moduleId ` set manifest. \<forall>sm. savedOwn saved k = Some sm \<longrightarrow>
          (\<exists>m. own (modules s) k = Some (PObject (moduleObject m))
             \<and> (savedStatus sm = Some Locked \<longrightarrow> status m = Available)
             \<and> (savedStatus sm = Some Available \<longrightarrow> status m = Available)
             \<and> (savedStatus sm = Some Completed \<longrightarrow> status m = Completed)
             \<and> (savedStatus sm = None \<longrightarrow> status m = Available)
             \<and> attempts m = (case savedAttempts sm of
                               None \<Rightarrow> \<lparr>validate = Finite 0, simulate = Finite 0\<rparr> | Some a \<Rightarrow> a)
             \<and> teachBack m = (case savedTeachBack sm of None \<Rightarrow> [] | Some t \<Rightarrow> t))"
  proof (intro ballI allI impI)
    fix k sm
    assume k: "k \<in> moduleId ` set manifest" and sm: "savedOwn saved k = Some sm"
    have o: "own (modules s) k = Some (PObject (moduleObject (mergedModule sm)))"
      using k sm by (simp add: m)
    have q: "savedStatus sm = Some Locked \<longrightarrow> status (mergedModule sm) = Available"
      "savedStatus sm = Some Available \<longrightarrow> status (mergedModule sm) = Available"
      "savedStatus sm = Some Completed \<longrightarrow> status (mergedModule sm) = Completed"
      "savedStatus sm = None \<longrightarrow> status (mergedModule sm) = Available"
      "attempts (mergedModule sm) = (case savedAttempts sm of
          None \<Rightarrow> \<lparr>validate = Finite 0, simulate = Finite 0\<rparr> | Some a \<Rightarrow> a)"
      "teachBack (mergedModule sm) = (case savedTeachBack sm of None \<Rightarrow> [] | Some t \<Rightarrow> t)"
      by (simp_all add: mergedModule_def)
    show "\<exists>m. own (modules s) k = Some (PObject (moduleObject m))
             \<and> (savedStatus sm = Some Locked \<longrightarrow> status m = Available)
             \<and> (savedStatus sm = Some Available \<longrightarrow> status m = Available)
             \<and> (savedStatus sm = Some Completed \<longrightarrow> status m = Completed)
             \<and> (savedStatus sm = None \<longrightarrow> status m = Available)
             \<and> attempts m = (case savedAttempts sm of
                               None \<Rightarrow> \<lparr>validate = Finite 0, simulate = Finite 0\<rparr> | Some a \<Rightarrow> a)
             \<and> teachBack m = (case savedTeachBack sm of None \<Rightarrow> [] | Some t \<Rightarrow> t)"
      apply (rule exI [of _ "mergedModule sm"])
      apply (intro conjI)
            apply (rule o)
           apply (rule q)+
      done
  qed
  show "\<exists>s. mergeProgress manifest saved = Inr s
     \<and> proto (modules s) = None
     \<and> dom (own (modules s)) = moduleId ` set manifest
     \<and> (\<forall>k \<in> moduleId ` set manifest. savedOwn saved k = None \<longrightarrow>
          own (modules s) k =
            Some (PObject (moduleObject \<lparr>status = Available,
                    attempts = \<lparr>validate = Finite 0, simulate = Finite 0\<rparr>, teachBack = []\<rparr>)))
     \<and> (\<forall>k \<in> moduleId ` set manifest. \<forall>sm. savedOwn saved k = Some sm \<longrightarrow>
          (\<exists>m. own (modules s) k = Some (PObject (moduleObject m))
             \<and> (savedStatus sm = Some Locked \<longrightarrow> status m = Available)
             \<and> (savedStatus sm = Some Available \<longrightarrow> status m = Available)
             \<and> (savedStatus sm = Some Completed \<longrightarrow> status m = Completed)
             \<and> (savedStatus sm = None \<longrightarrow> status m = Available)
             \<and> attempts m = (case savedAttempts sm of
                               None \<Rightarrow> \<lparr>validate = Finite 0, simulate = Finite 0\<rparr> | Some a \<Rightarrow> a)
             \<and> teachBack m = (case savedTeachBack sm of None \<Rightarrow> [] | Some t \<Rightarrow> t)))"
    apply (rule exI [of _ s])
    apply (intro conjI)
        apply (rule s)
       apply (rule pr)
      apply (rule d)
     apply (rule a)
    apply (rule b)
    done
qed

lemma modulesGet_own:
  "own ms k = Some v \<Longrightarrow> modulesGet ms k = Some v"
  by (simp add: modulesGet_def)

lemma updateModule_own:
  assumes "own (modules s) mId = Some v" "truthy v" "updater v = Inr v'"
  shows "updateModule mId updater s =
     Inr \<lparr>modules = \<lparr>own = (own (modules s))(mId \<mapsto> v'), proto = None\<rparr>\<rparr>"
  using assms by (simp add: updateModule_def modulesGet_own)

lemma updateModule_undefined:
  "modulesGet (modules s) mId = None \<Longrightarrow> updateModule mId updater s = Inr s"
  by (simp add: updateModule_def)

lemma moduleObject_update:
  "(moduleObject m)\<lparr>statusProp := Some st\<rparr> = moduleObject (m\<lparr>status := st\<rparr>)"
  "(moduleObject m)\<lparr>attemptsProp := Some a\<rparr> = moduleObject (m\<lparr>attempts := a\<rparr>)"
  "(moduleObject m)\<lparr>teachBackProp := Some t\<rparr> = moduleObject (m\<lparr>teachBack := t\<rparr>)"
  by (simp_all add: moduleObject_def)

lemma moduleObject_props:
  "statusProp (moduleObject m) = Some (status m)"
  "attemptsProp (moduleObject m) = Some (attempts m)"
  "teachBackProp (moduleObject m) = Some (teachBack m)"
  by (simp_all add: moduleObject_def)

text \<open>Unlocking, on a state whose prototype is \<open>Object.prototype\<close>.\<close>

lemma unlockModule_own_object:
  assumes "own (modules s) f = Some (PObject obj)"
  shows "unlockModule f s =
     Inr \<lparr>modules = \<lparr>own = (own (modules s))(f \<mapsto>
            PObject (if statusProp obj = Some Locked then obj\<lparr>statusProp := Some Available\<rparr>
                     else obj)),
          proto = None\<rparr>\<rparr>"
  using assms by (simp add: unlockModule_def updateModule_def modulesGet_own)

lemma unlockModule_returns: "\<exists>s'. unlockModule f s = Inr s'
   \<and> (\<forall>k. k \<noteq> f \<longrightarrow> own (modules s') k = own (modules s) k)"
  by (auto simp: unlockModule_def updateModule_def split: option.splits)

lemma markCompleted_present:
  assumes m: "own (modules s) mId = Some (PObject (moduleObject m))"
  shows "\<exists>s'. markCompleted moduleOrder mId s = Inr s'
     \<and> own (modules s') mId = Some (PObject (moduleObject (m\<lparr>status := Completed\<rparr>)))
     \<and> (let index = indexOf moduleOrder mId
        in if 0 \<le> index \<and> index < int (length moduleOrder) - 1
           then (let following = moduleOrder ! nat (index + 1)
                 in (\<forall>obj. following \<noteq> mId \<and> own (modules s) following = Some (PObject obj) \<longrightarrow>
                       own (modules s') following =
                         Some (PObject (if statusProp obj = Some Locked
                                        then obj\<lparr>statusProp := Some Available\<rparr> else obj)))
                    \<and> (\<forall>k. k \<noteq> mId \<and> k \<noteq> following \<longrightarrow>
                          own (modules s') k = own (modules s) k))
           else (\<forall>k. k \<noteq> mId \<longrightarrow> own (modules s') k = own (modules s) k))"
proof -
  define c where "c = \<lparr>modules = \<lparr>own = (own (modules s))(mId \<mapsto>
      PObject (moduleObject (m\<lparr>status := Completed\<rparr>))), proto = None\<rparr>\<rparr>"
  have u: "updateModule mId (\<lambda>c. Inr (PObject ((spread c)\<lparr>statusProp := Some Completed\<rparr>))) s
      = Inr c"
    unfolding c_def
    by (subst updateModule_own [OF m]) (simp_all add: moduleObject_update)
  have cm: "own (modules c) mId = Some (PObject (moduleObject (m\<lparr>status := Completed\<rparr>)))"
    and co: "\<And>k. k \<noteq> mId \<Longrightarrow> own (modules c) k = own (modules s) k"
    by (simp_all add: c_def)
  define index where "index = indexOf moduleOrder mId"
  define f where "f = moduleOrder ! nat (index + 1)"
  show ?thesis
    unfolding Let_def index_def [symmetric] f_def [symmetric]
  proof (cases "0 \<le> index \<and> index < int (length moduleOrder) - 1")
    case False
    have mc: "markCompleted moduleOrder mId s = Inr c"
      unfolding markCompleted_def u Let_def index_def [symmetric] sum.case if_not_P [OF False] ..
    show "\<exists>s'. markCompleted moduleOrder mId s = Inr s'
     \<and> own (modules s') mId = Some (PObject (moduleObject (m\<lparr>status := Completed\<rparr>)))
     \<and> (if 0 \<le> index \<and> index < int (length moduleOrder) - 1
           then (\<forall>obj. f \<noteq> mId \<and> own (modules s) f = Some (PObject obj) \<longrightarrow>
                       own (modules s') f =
                         Some (PObject (if statusProp obj = Some Locked
                                        then obj\<lparr>statusProp := Some Available\<rparr> else obj)))
                    \<and> (\<forall>k. k \<noteq> mId \<and> k \<noteq> f \<longrightarrow>
                          own (modules s') k = own (modules s) k)
           else (\<forall>k. k \<noteq> mId \<longrightarrow> own (modules s') k = own (modules s) k))"
      unfolding if_not_P [OF False] mc
      using cm co by simp
  next
    case True
    have mc: "markCompleted moduleOrder mId s = unlockModule f c"
      unfolding markCompleted_def u Let_def index_def [symmetric] sum.case if_P [OF True] f_def ..
    have "\<exists>s'. unlockModule f c = Inr s'
       \<and> own (modules s') mId = Some (PObject (moduleObject (m\<lparr>status := Completed\<rparr>)))
       \<and> (\<forall>obj. f \<noteq> mId \<and> own (modules s) f = Some (PObject obj) \<longrightarrow>
                       own (modules s') f =
                         Some (PObject (if statusProp obj = Some Locked
                                        then obj\<lparr>statusProp := Some Available\<rparr> else obj)))
       \<and> (\<forall>k. k \<noteq> mId \<and> k \<noteq> f \<longrightarrow> own (modules s') k = own (modules s) k)"
    proof (cases "f = mId")
      case True
      have "unlockModule f c = Inr c"
        unfolding True
        by (subst unlockModule_own_object [OF cm])
           (auto simp: moduleObject_props c_def)
      with cm co True show ?thesis by simp
    next
      case False
      from unlockModule_returns [of f c] obtain s' where
        s': "unlockModule f c = Inr s'"
        and fr: "\<And>k. k \<noteq> f \<Longrightarrow> own (modules s') k = own (modules c) k" by blast
      have a: "own (modules s') mId = Some (PObject (moduleObject (m\<lparr>status := Completed\<rparr>)))"
        using fr [of mId] False cm by simp
      have b: "\<And>obj. own (modules s) f = Some (PObject obj) \<Longrightarrow>
          own (modules s') f = Some (PObject (if statusProp obj = Some Locked
                                        then obj\<lparr>statusProp := Some Available\<rparr> else obj))"
      proof -
        fix obj assume "own (modules s) f = Some (PObject obj)"
        then have "own (modules c) f = Some (PObject obj)" using co [OF False] by simp
        from unlockModule_own_object [OF this] s' show "own (modules s') f =
            Some (PObject (if statusProp obj = Some Locked
                           then obj\<lparr>statusProp := Some Available\<rparr> else obj))"
          by auto
      qed
      have d: "\<And>k. k \<noteq> mId \<and> k \<noteq> f \<Longrightarrow> own (modules s') k = own (modules s) k"
        using fr co by simp
      from s' a b d show ?thesis by simp
    qed
    then show "\<exists>s'. markCompleted moduleOrder mId s = Inr s'
     \<and> own (modules s') mId = Some (PObject (moduleObject (m\<lparr>status := Completed\<rparr>)))
     \<and> (if 0 \<le> index \<and> index < int (length moduleOrder) - 1
           then (\<forall>obj. f \<noteq> mId \<and> own (modules s) f = Some (PObject obj) \<longrightarrow>
                       own (modules s') f =
                         Some (PObject (if statusProp obj = Some Locked
                                        then obj\<lparr>statusProp := Some Available\<rparr> else obj)))
                    \<and> (\<forall>k. k \<noteq> mId \<and> k \<noteq> f \<longrightarrow>
                          own (modules s') k = own (modules s) k)
           else (\<forall>k. k \<noteq> mId \<longrightarrow> own (modules s') k = own (modules s) k))"
      unfolding if_P [OF True] mc .
  qed
qed

subsubsection \<open>The states of the provider\<close>

lemma found_proto: "modulesGet ms (str ''__proto__'') \<noteq> None"
  by (simp add: modulesGet_def objectPrototypeGet_def split: option.splits)

lemma found_assignModule:
  "modulesGet ms k \<noteq> None \<Longrightarrow> k \<in> dom (own ms) \<or> k = str ''__proto__'' \<Longrightarrow>
   k \<in> dom (own (assignModule ms k' obj)) \<or> k = str ''__proto__''"
  by (auto simp: assignModule_def)

lemma found_fold_assign:
  "(\<forall>k \<in> K. k \<in> dom (own ms) \<or> k = str ''__proto__'') \<Longrightarrow>
   (\<forall>k \<in> K \<union> moduleId ` set es.
      k \<in> dom (own (fold (\<lambda>entry ms. assignModule ms (moduleId entry) defaultModule) es ms))
      \<or> k = str ''__proto__'')"
proof (induction es arbitrary: ms K)
  case Nil
  then show ?case by simp
next
  case (Cons e es)
  have "\<forall>k \<in> insert (moduleId e) K.
      k \<in> dom (own (assignModule ms (moduleId e) defaultModule)) \<or> k = str ''__proto__''"
    using Cons.prems by (auto simp: assignModule_def)
  from Cons.IH [OF this] show ?case by simp
qed

lemma found_buildDefaultProgress: "found manifest (modules (buildDefaultProgress manifest))"
  using found_fold_assign [of "{}" "\<lparr>own = Map.empty, proto = None\<rparr>" manifest]
  by (simp add: found_def buildDefaultProgress_def)

lemma dom_assignModule: "dom (own ms) \<subseteq> dom (own (assignModule ms k obj))"
  by (auto simp: assignModule_def)

lemma dom_mergeLoop:
  "mergeLoop sv baseline es merged = Inr r \<Longrightarrow> dom (own merged) \<subseteq> dom (own r)"
proof (induction es arbitrary: merged)
  case Nil
  then show ?case by simp
next
  case (Cons e es)
  show ?case
  proof (cases "savedModuleAt sv (moduleId e)")
    case None
    with Cons show ?thesis by simp
  next
    case (Some sm)
    with Cons.prems obtain m where
      "mergeLoop sv baseline es (assignModule merged (moduleId e) m) = Inr r"
      by (auto split: sum.splits)
    from Cons.IH [OF this] dom_assignModule [of merged "moduleId e" m] show ?thesis by blast
  qed
qed

lemma found_mono:
  "found manifest ms \<Longrightarrow> dom (own ms) \<subseteq> dom (own ms') \<Longrightarrow> found manifest ms'"
  by (auto simp: found_def)

lemma found_mergeProgress:
  "mergeProgress manifest saved = Inr s \<Longrightarrow> found manifest (modules s)"
proof (cases saved)
  case None
  assume "mergeProgress manifest saved = Inr s"
  with None show ?thesis by (auto simp: mergeProgress_def found_buildDefaultProgress)
next
  case (Some sv)
  assume "mergeProgress manifest saved = Inr s"
  with Some obtain r where
    r: "mergeLoop sv (buildDefaultProgress manifest) manifest
          \<lparr>own = own (modules (buildDefaultProgress manifest)), proto = None\<rparr> = Inr r"
    and s: "s = \<lparr>modules = r\<rparr>"
    by (auto simp: mergeProgress_def Let_def map_sum_def split: sum.splits)
  from dom_mergeLoop [OF r]
  have "dom (own (modules (buildDefaultProgress manifest))) \<subseteq> dom (own r)" by simp
  from found_mono [OF found_buildDefaultProgress this] show ?thesis by (simp add: s)
qed

lemma dom_updateModule:
  "updateModule mId updater s = Inr s' \<Longrightarrow> dom (own (modules s)) \<subseteq> dom (own (modules s'))"
  by (auto simp: updateModule_def split: option.splits if_splits sum.splits)

lemma dom_unlockModule:
  "unlockModule f s = Inr s' \<Longrightarrow> dom (own (modules s)) \<subseteq> dom (own (modules s'))"
  unfolding unlockModule_def by (rule dom_updateModule)

lemma dom_markCompleted:
  assumes a: "markCompleted order mId s = Inr s'"
  shows "dom (own (modules s)) \<subseteq> dom (own (modules s'))"
proof -
  from a obtain c where
    c: "updateModule mId (\<lambda>c. Inr (PObject ((spread c)\<lparr>statusProp := Some Completed\<rparr>))) s = Inr c"
    by (auto simp: markCompleted_def split: sum.splits)
  from a c have "unlockModule (order ! nat (indexOf order mId + 1)) c = Inr s' \<or> s' = c"
    by (auto simp: markCompleted_def Let_def split: if_splits)
  then have "dom (own (modules c)) \<subseteq> dom (own (modules s'))"
  proof
    assume "unlockModule (order ! nat (indexOf order mId + 1)) c = Inr s'"
    then show ?thesis by (rule dom_unlockModule)
  next
    assume "s' = c"
    then show ?thesis by simp
  qed
  with dom_updateModule [OF c] show ?thesis by blast
qed

lemma reachable_found: "reachable manifest s \<Longrightarrow> found manifest (modules s)"
proof (induction rule: reachable.induct)
  case initial
  show ?case by (rule found_buildDefaultProgress)
next
  case (loaded saved s)
  then show ?case by (rule found_mergeProgress)
next
  case (validated s mId s')
  then show ?case
    using dom_updateModule found_mono unfolding markValidateAttempt_def by blast
next
  case (simulated s mId s')
  then show ?case
    using dom_updateModule found_mono unfolding markSimulateAttempt_def by blast
next
  case (taughtBack s mId t s')
  then show ?case
    using dom_updateModule found_mono unfolding updateTeachBack_def by blast
next
  case (completed s mId s')
  then show ?case using dom_markCompleted found_mono by blast
next
  case (unlocked s mId s')
  then show ?case using dom_unlockModule found_mono by blast
qed

lemma markCompleted_undefined:
  assumes r: "reachable manifest s" and n: "modulesGet (modules s) mId = None"
  shows "markCompleted (map moduleId manifest) mId s = Inr s"
proof -
  have "mId \<notin> dom (own (modules s))"
    using n by (auto simp: modulesGet_def split: option.splits)
  moreover have "mId \<noteq> str ''__proto__''" using n found_proto [of "modules s"] by auto
  ultimately have "mId \<notin> set (map moduleId manifest)"
    using reachable_found [OF r] by (auto simp: found_def)
  then have "indexOf (map moduleId manifest) mId = - 1" by (rule indexOf_absent)
  then show ?thesis
    by (simp add: markCompleted_def updateModule_undefined [OF n])
qed

text \<open>
  C9 as stated fails: \<open>toString\<close> is not a key of the initial state for the manifest of
  \<open>M01\<close>, but \<open>current.modules["toString"]\<close> finds the function that \<open>modules\<close>
  inherits from \<open>Object.prototype\<close>, so \<open>markCompleted\<close> adds an entry under that key.
\<close>

theorem markCompleted_effect_counterexample:
  "own (modules (buildDefaultProgress [M01])) (str ''toString'') = None
   \<and> markCompleted (map moduleId [M01]) (str ''toString'') (buildDefaultProgress [M01]) =
       Inr \<lparr>modules = \<lparr>own = [
              str ''M01'' \<mapsto> PObject defaultModule,
              str ''toString'' \<mapsto> PObject (emptyObject\<lparr>statusProp := Some Completed\<rparr>)],
            proto = None\<rparr>\<rparr>"
  by (simp add: buildDefaultProgress_def M01_def assignModule_def str_eq_iff markCompleted_def
      updateModule_def modulesGet_def objectPrototypeGet_def objectPrototypeFunctions_def)

text \<open>
  C9, amended. When \<open>mId\<close> is a key of the progress state that holds a module entry,
  \<open>markCompleted\<close> returns a state in which that entry has the status "completed"
  (attempts and teach-back kept); if \<open>mId\<close> has a successor in the module order, the
  successor's entry goes from "locked" to "available" and is otherwise left as it is; no
  other key changes. In a state that the provider can reach, \<open>markCompleted\<close> with a
  \<open>mId\<close> that the lookup \<open>current.modules[mId]\<close> does not find (neither a key of the
  state nor a property that \<open>modules\<close> inherits) returns the state unchanged.
\<close>

theorem markCompleted_effect:
  "(own (modules s) mId = Some (PObject (moduleObject m)) \<longrightarrow>
      (\<exists>s'. markCompleted moduleOrder mId s = Inr s'
         \<and> own (modules s') mId = Some (PObject (moduleObject (m\<lparr>status := Completed\<rparr>)))
         \<and> (let index = indexOf moduleOrder mId
            in if 0 \<le> index \<and> index < int (length moduleOrder) - 1
               then (let following = moduleOrder ! nat (index + 1)
                     in (\<forall>obj. following \<noteq> mId \<and> own (modules s) following = Some (PObject obj) \<longrightarrow>
                           own (modules s') following =
                             Some (PObject (if statusProp obj = Some Locked
                                            then obj\<lparr>statusProp := Some Available\<rparr> else obj)))
                        \<and> (\<forall>k. k \<noteq> mId \<and> k \<noteq> following \<longrightarrow>
                              own (modules s') k = own (modules s) k))
               else (\<forall>k. k \<noteq> mId \<longrightarrow> own (modules s') k = own (modules s) k))))
   \<and> (reachable manifest s \<and> modulesGet (modules s) mId = None \<longrightarrow>
        markCompleted (map moduleId manifest) mId s = Inr s)"
  using markCompleted_present [of s mId m moduleOrder] markCompleted_undefined [of manifest s mId]
  by (intro conjI impI) (assumption, simp)

lemma markValidateAttempt_own:
  assumes m: "own (modules s) mId = Some (PObject (moduleObject m))"
  shows "markValidateAttempt mId s =
     Inr \<lparr>modules = \<lparr>own = (own (modules s))(mId \<mapsto> PObject (moduleObject
            (m\<lparr>attempts := (attempts m)\<lparr>validate := plusOne (validate (attempts m))\<rparr>\<rparr>))),
          proto = None\<rparr>\<rparr>"
  unfolding markValidateAttempt_def
  by (subst updateModule_own [OF m]) (simp_all add: moduleObject_props moduleObject_update)

lemma markSimulateAttempt_own:
  assumes m: "own (modules s) mId = Some (PObject (moduleObject m))"
  shows "markSimulateAttempt mId s =
     Inr \<lparr>modules = \<lparr>own = (own (modules s))(mId \<mapsto> PObject (moduleObject
            (m\<lparr>attempts := (attempts m)\<lparr>simulate := plusOne (simulate (attempts m))\<rparr>\<rparr>))),
          proto = None\<rparr>\<rparr>"
  unfolding markSimulateAttempt_def
  by (subst updateModule_own [OF m]) (simp_all add: moduleObject_props moduleObject_update)

lemma roundDouble_succ:
  "\<bar>n\<bar> < 2 ^ 53 \<Longrightarrow> roundDouble (of_int n + 1) = Finite (of_int n + 1)"
  using plusOne_safe [of n] by simp

lemma roundDouble_at_2_53: "roundDouble (2 ^ 53 + 1) = Finite (2 ^ 53)"
  using plusOne_at_2_53 by simp

text \<open>
  C10 as stated fails: the counters are binary64 numbers, and \<open>2^53 + 1\<close> rounds to
  \<open>2^53\<close>. The state loaded from a saved validate counter of \<open>2^53\<close> is left unchanged
  by \<open>markValidateAttempt\<close>.
\<close>

theorem markAttempt_effect_counterexample:
  "mergeProgress [M01] (Some \<lparr>savedModules = Some [str ''M01'' \<mapsto>
       \<lparr>savedStatus = Some Available,
        savedAttempts = Some \<lparr>validate = Finite (2 ^ 53), simulate = Finite 0\<rparr>,
        savedTeachBack = Some []\<rparr>]\<rparr>) = Inr saturatedProgress
   \<and> markValidateAttempt (str ''M01'') saturatedProgress = Inr saturatedProgress"
proof -
  have m: "own (modules saturatedProgress) (str ''M01'') =
      Some (PObject (moduleObject \<lparr>status = Available,
                        attempts = \<lparr>validate = Finite (2 ^ 53), simulate = Finite 0\<rparr>,
                        teachBack = []\<rparr>))"
    by (simp add: saturatedProgress_def)
  have a: "markValidateAttempt (str ''M01'') saturatedProgress = Inr saturatedProgress"
    using roundDouble_at_2_53
    by (simp add: markValidateAttempt_own [OF m]) (simp add: saturatedProgress_def)
  have b: "mergeProgress [M01] (Some \<lparr>savedModules = Some [str ''M01'' \<mapsto>
       \<lparr>savedStatus = Some Available,
        savedAttempts = Some \<lparr>validate = Finite (2 ^ 53), simulate = Finite 0\<rparr>,
        savedTeachBack = Some []\<rparr>]\<rparr>) = Inr saturatedProgress"
    by (simp add: mergeProgress_def buildDefaultProgress_def M01_def assignModule_def str_eq_iff
        savedModuleAt_def mergeModule_def saturatedProgress_def moduleObject_def)
  from a b show ?thesis by simp
qed

text \<open>
  C10, amended. When \<open>mId\<close> is a key of the progress state that holds a module entry
  whose validate counter is an integer of magnitude below \<open>2^53\<close>,
  \<open>markValidateAttempt\<close> returns a state in which that counter is greater by exactly
  one; the status, the teach-back, the other counter and every other key are unchanged.
  The same holds of \<open>markSimulateAttempt\<close> and the simulate counter.
\<close>

theorem markAttempt_effect:
  "own (modules s) mId = Some (PObject (moduleObject m)) \<longrightarrow>
     (validate (attempts m) = Finite (of_int v) \<and> \<bar>v\<bar> < 2 ^ 53 \<longrightarrow>
        (\<exists>s'. markValidateAttempt mId s = Inr s'
           \<and> own (modules s') mId = Some (PObject (moduleObject
                (m\<lparr>attempts := (attempts m)\<lparr>validate := Finite (of_int (v + 1))\<rparr>\<rparr>)))
           \<and> (\<forall>k. k \<noteq> mId \<longrightarrow> own (modules s') k = own (modules s) k)))
     \<and> (simulate (attempts m) = Finite (of_int u) \<and> \<bar>u\<bar> < 2 ^ 53 \<longrightarrow>
        (\<exists>s'. markSimulateAttempt mId s = Inr s'
           \<and> own (modules s') mId = Some (PObject (moduleObject
                (m\<lparr>attempts := (attempts m)\<lparr>simulate := Finite (of_int (u + 1))\<rparr>\<rparr>)))
           \<and> (\<forall>k. k \<noteq> mId \<longrightarrow> own (modules s') k = own (modules s) k)))"
  by (simp add: markValidateAttempt_own markSimulateAttempt_own roundDouble_succ)

theorem mergeProgress_modules_witness:
  "str ''__proto__'' \<notin> moduleId ` set [M01, M02]
   \<and> (\<exists>s. mergeProgress [M01, M02]
          (Some \<lparr>savedModules = Some [str ''M01'' \<mapsto>
             \<lparr>savedStatus = Some Locked,
              savedAttempts = Some \<lparr>validate = Finite 2, simulate = Finite 1\<rparr>,
              savedTeachBack = None\<rparr>,
             str ''M09'' \<mapsto> \<lparr>savedStatus = Some Completed, savedAttempts = None,
              savedTeachBack = None\<rparr>]\<rparr>) = Inr s
     \<and> dom (own (modules s)) = {str ''M01'', str ''M02''}
     \<and> own (modules s) (str ''M02'') =
         Some (PObject (moduleObject \<lparr>status = Available,
            attempts = \<lparr>validate = Finite 0, simulate = Finite 0\<rparr>, teachBack = []\<rparr>))
     \<and> (\<exists>m. own (modules s) (str ''M01'') = Some (PObject (moduleObject m))
           \<and> status m = Available
           \<and> attempts m = \<lparr>validate = Finite 2, simulate = Finite 1\<rparr> \<and> teachBack m = []))"
proof -
  have p: "str ''__proto__'' \<notin> moduleId ` set [M01, M02]"
    by (simp add: M01_def M02_def str_eq_iff)
  have a: "savedOwn (Some \<lparr>savedModules = Some [str ''M01'' \<mapsto>
             \<lparr>savedStatus = Some Locked,
              savedAttempts = Some \<lparr>validate = Finite 2, simulate = Finite 1\<rparr>,
              savedTeachBack = None\<rparr>,
             str ''M09'' \<mapsto> \<lparr>savedStatus = Some Completed, savedAttempts = None,
              savedTeachBack = None\<rparr>]\<rparr>) (str ''M01'') = Some \<lparr>savedStatus = Some Locked,
              savedAttempts = Some \<lparr>validate = Finite 2, simulate = Finite 1\<rparr>,
              savedTeachBack = None\<rparr>"
    by (simp add: savedOwn_def str_eq_iff)
  have b: "savedOwn (Some \<lparr>savedModules = Some [str ''M01'' \<mapsto>
             \<lparr>savedStatus = Some Locked,
              savedAttempts = Some \<lparr>validate = Finite 2, simulate = Finite 1\<rparr>,
              savedTeachBack = None\<rparr>,
             str ''M09'' \<mapsto> \<lparr>savedStatus = Some Completed, savedAttempts = None,
              savedTeachBack = None\<rparr>]\<rparr>) (str ''M02'') = None"
    by (simp add: savedOwn_def str_eq_iff)
  have i: "moduleId ` set [M01, M02] = {str ''M01'', str ''M02''}"
    by (simp add: M01_def M02_def)
  from mergeProgress_modules [of "[M01, M02]"
          "Some \<lparr>savedModules = Some [str ''M01'' \<mapsto>
             \<lparr>savedStatus = Some Locked,
              savedAttempts = Some \<lparr>validate = Finite 2, simulate = Finite 1\<rparr>,
              savedTeachBack = None\<rparr>,
             str ''M09'' \<mapsto> \<lparr>savedStatus = Some Completed, savedAttempts = None,
              savedTeachBack = None\<rparr>]\<rparr>"] p a b
  show ?thesis
    unfolding i by (auto simp: str_eq_iff)
qed

theorem markCompleted_effect_witness:
  "own (modules exampleProgress) (str ''M01'') =
     Some (PObject (moduleObject \<lparr>status = Available,
        attempts = \<lparr>validate = Finite 3, simulate = Finite 1\<rparr>, teachBack = str ''notes''\<rparr>))
   \<and> (\<exists>s'. markCompleted [str ''M01'', str ''M02''] (str ''M01'') exampleProgress = Inr s'
        \<and> own (modules s') (str ''M01'') =
            Some (PObject (moduleObject \<lparr>status = Completed,
              attempts = \<lparr>validate = Finite 3, simulate = Finite 1\<rparr>, teachBack = str ''notes''\<rparr>))
        \<and> own (modules s') (str ''M02'') =
            Some (PObject (moduleObject \<lparr>status = Available,
              attempts = \<lparr>validate = Finite 0, simulate = Finite 0\<rparr>, teachBack = []\<rparr>)))
   \<and> reachable [M01] (buildDefaultProgress [M01])
   \<and> modulesGet (modules (buildDefaultProgress [M01])) (str ''M02'') = None
   \<and> markCompleted (map moduleId [M01]) (str ''M02'') (buildDefaultProgress [M01])
       = Inr (buildDefaultProgress [M01])"
proof -
  have a: "own (modules exampleProgress) (str ''M01'') =
     Some (PObject (moduleObject \<lparr>status = Available,
        attempts = \<lparr>validate = Finite 3, simulate = Finite 1\<rparr>, teachBack = str ''notes''\<rparr>))"
    by (simp add: exampleProgress_def str_eq_iff)
  have b: "own (modules exampleProgress) (str ''M02'') =
     Some (PObject (moduleObject \<lparr>status = Locked,
        attempts = \<lparr>validate = Finite 0, simulate = Finite 0\<rparr>, teachBack = []\<rparr>))"
    by (simp add: exampleProgress_def str_eq_iff)
  have i: "indexOf [str ''M01'', str ''M02''] (str ''M01'') = 0" by simp
  have ne: "str ''M02'' \<noteq> str ''M01''" by (simp add: str_eq_iff)
  have r: "reachable [M01] (buildDefaultProgress [M01])" by (rule reachable.initial)
  have n: "modulesGet (modules (buildDefaultProgress [M01])) (str ''M02'') = None"
    by (simp add: buildDefaultProgress_def M01_def assignModule_def str_eq_iff modulesGet_def
        objectPrototypeGet_def objectPrototypeFunctions_def)
  from markCompleted_effect [of exampleProgress "str ''M01''"
      "\<lparr>status = Available, attempts = \<lparr>validate = Finite 3, simulate = Finite 1\<rparr>,
        teachBack = str ''notes''\<rparr>" "[str ''M01'', str ''M02'']" "[]"] a
  have c: "\<exists>s'. markCompleted [str ''M01'', str ''M02''] (str ''M01'') exampleProgress = Inr s'
        \<and> own (modules s') (str ''M01'') =
            Some (PObject (moduleObject \<lparr>status = Completed,
              attempts = \<lparr>validate = Finite 3, simulate = Finite 1\<rparr>, teachBack = str ''notes''\<rparr>))
        \<and> own (modules s') (str ''M02'') =
            Some (PObject (moduleObject \<lparr>status = Available,
              attempts = \<lparr>validate = Finite 0, simulate = Finite 0\<rparr>, teachBack = []\<rparr>))"
    using i ne b by (auto simp: Let_def moduleObject_props moduleObject_update)
  from markCompleted_effect [of "buildDefaultProgress [M01]" "str ''M02''"
      "\<lparr>status = Available, attempts = \<lparr>validate = Finite 0, simulate = Finite 0\<rparr>, teachBack = []\<rparr>"
      "[]" "[M01]"] r n
  have e: "markCompleted (map moduleId [M01]) (str ''M02'') (buildDefaultProgress [M01])
       = Inr (buildDefaultProgress [M01])" by blast
  from a c r n e show ?thesis by blast
qed

theorem markAttempt_effect_witness:
  "own (modules exampleProgress) (str ''M01'') =
     Some (PObject (moduleObject \<lparr>status = Available,
        attempts = \<lparr>validate = Finite 3, simulate = Finite 1\<rparr>, teachBack = str ''notes''\<rparr>))
   \<and> \<bar>3 :: int\<bar> < 2 ^ 53 \<and> \<bar>1 :: int\<bar> < 2 ^ 53
   \<and> (\<exists>s'. markValidateAttempt (str ''M01'') exampleProgress = Inr s'
        \<and> own (modules s') (str ''M01'') =
            Some (PObject (moduleObject \<lparr>status = Available,
              attempts = \<lparr>validate = Finite 4, simulate = Finite 1\<rparr>, teachBack = str ''notes''\<rparr>))
        \<and> own (modules s') (str ''M02'') = own (modules exampleProgress) (str ''M02''))
   \<and> (\<exists>s'. markSimulateAttempt (str ''M01'') exampleProgress = Inr s'
        \<and> own (modules s') (str ''M01'') =
            Some (PObject (moduleObject \<lparr>status = Available,
              attempts = \<lparr>validate = Finite 3, simulate = Finite 2\<rparr>, teachBack = str ''notes''\<rparr>))
        \<and> own (modules s') (str ''M02'') = own (modules exampleProgress) (str ''M02''))"
proof -
  have a: "own (modules exampleProgress) (str ''M01'') =
     Some (PObject (moduleObject \<lparr>status = Available,
        attempts = \<lparr>validate = Finite 3, simulate = Finite 1\<rparr>, teachBack = str ''notes''\<rparr>))"
    by (simp add: exampleProgress_def str_eq_iff)
  have ne: "str ''M02'' \<noteq> str ''M01''" by (simp add: str_eq_iff)
  from markAttempt_effect [of exampleProgress "str ''M01''"
      "\<lparr>status = Available, attempts = \<lparr>validate = Finite 3, simulate = Finite 1\<rparr>,
        teachBack = str ''notes''\<rparr>" 3 1]
    a ne
  show ?thesis by auto
qed

subsection \<open>Requirements\<close>

lemma requirementType_triggerIs:
  "requirementType r = str ''triggerIs'' \<longleftrightarrow> (\<exists>v. r = TriggerIs v)"
proof (cases r)
  case (OtherRequirement k)
  have "str ''triggerIs'' \<in> set requirementKinds" by (simp add: requirementKinds_def)
  with Rep_otherKind [of k] have "Rep_otherKind k \<noteq> str ''triggerIs''" by auto
  with OtherRequirement show ?thesis by simp
qed (simp_all add: str_def)

lemma isl_andThen: "isl (andThen r f) \<longleftrightarrow> isl r \<or> isl (f (projr r))"
  by (cases r) (simp_all add: andThen_def)

lemma Inr_iff_not_isl: "(\<exists>s. r = Inr s) \<longleftrightarrow> \<not> isl r"
  by (cases r) simp_all

lemma error_Inl: "isl r \<Longrightarrow> r = Inl TypeError"
  by (cases r) (simp_all, metis error.exhaust)

lemma isl_ToString_joinArray:
  "isl (ToString t v) \<longleftrightarrow> \<not> printable v"
  "isl (joinArray t sep xs) \<longleftrightarrow> \<not> list_all printable xs"
proof (induction t v and t sep xs rule: ToString_joinArray.induct)
  case (9 otherText sep x xs)
  show ?case
  proof (cases "x = AUndefined \<or> x = ANull")
    case True
    then show ?thesis using 9 by (auto split: sum.splits)
  next
    case False
    then show ?thesis using 9 by (auto split: sum.splits)
  qed
qed simp_all

lemma isl_joinCall: "isl (joinCall t sep v) \<longleftrightarrow> \<not> isArrayOf printable v"
  by (cases v) (simp_all add: isl_ToString_joinArray)

lemma displayable_iff:
  "displayable g v \<longleftrightarrow> \<not> isl (g v) \<and> printable (projr (g v))"
  by (cases "g v") (simp_all add: displayable_def)

lemma list_all_displayable_iff:
  "list_all (displayable g) xs \<longleftrightarrow>
   \<not> isl (mapElements g xs) \<and> list_all printable (projr (mapElements g xs))"
proof (induction xs)
  case Nil
  then show ?case by simp
next
  case (Cons x xs)
  then show ?case
    by (cases "g x"; cases "mapElements g xs") (auto simp: displayable_def)
qed

lemma isArrayOf_displayable_iff:
  "isArrayOf (displayable g) v \<longleftrightarrow>
   \<not> isl (mapCall g v) \<and> isArrayOf printable (projr (mapCall g v))"
proof (cases v)
  case (AArray xs)
  then show ?thesis
    using list_all_displayable_iff [of g xs]
    by (cases "mapElements g xs") simp_all
qed simp_all

lemma getData_object: "getData (AObject ps) name = Inr (property ps name)"
  by (simp add: property_def)

lemma formatRequirementSummary_object:
  "isl (formatRequirementSummary g t (AObject ps)) \<longleftrightarrow> \<not> wellFormed g (AObject ps)"
proof (cases "property ps (str ''type'')")
  case (AString k)
  note s = formatRequirementSummary_def wellFormed_def getData_object isl_andThen
    isl_ToString_joinArray isl_joinCall displayable_iff isArrayOf_displayable_iff str_eq_iff
  consider "k = str ''triggerIs''" | "k = str ''triggerConfigEquals''"
    | "k = str ''mustHaveNode''" | "k = str ''forbidNodeType''"
    | "k = str ''nodeConfigRequired''" | "k = str ''nodeOrder''"
    | "k = str ''mustContainIfElse''" | "k = str ''branchCountAtLeast''"
    | "k = str ''pathMustInclude''" | "k = str ''requireStopPath''"
    | "k \<notin> set requirementKinds"
    unfolding requirementKinds_def set_simps insert_iff empty_iff by argo
  then show ?thesis
  proof cases
    case 1
    with AString show ?thesis by (simp add: s del: getData.simps)
  next
    case 2
    with AString show ?thesis by (simp add: s del: getData.simps)
  next
    case 3
    with AString show ?thesis by (simp add: s del: getData.simps)
  next
    case 4
    with AString show ?thesis by (simp add: s del: getData.simps)
  next
    case 5
    with AString show ?thesis by (simp add: s del: getData.simps)
  next
    case 6
    with AString show ?thesis by (simp add: s del: getData.simps)
  next
    case 7
    with AString show ?thesis by (simp add: s del: getData.simps)
  next
    case 8
    with AString show ?thesis by (simp add: s del: getData.simps)
  next
    case 9
    with AString show ?thesis by (simp add: s del: getData.simps)
  next
    case 10
    with AString show ?thesis by (simp add: s del: getData.simps)
  next
    case 11
    with AString show ?thesis by (simp add: s requirementKinds_def del: getData.simps)
  qed
qed (simp_all add: formatRequirementSummary_def wellFormed_def getData_object isl_andThen
        del: getData.simps)

lemma formatRequirementSummary_returns:
  "isl (formatRequirementSummary g t x) \<longleftrightarrow> \<not> wellFormed g x"
proof (cases x)
  case (AObject ps)
  then show ?thesis by (simp add: formatRequirementSummary_object)
qed (simp_all add: formatRequirementSummary_def wellFormed_def isl_andThen andThen_def)

lemma joinArray_strings: "joinArray t sep (map AString ss) = Inr (join sep ss)"
proof (induction ss)
  case Nil
  then show ?case by simp
next
  case (Cons s ss)
  then show ?case by (cases ss) simp_all
qed

lemma joinArray_names:
  "joinArray t sep (map (AString \<circ> name) ns) = Inr (join sep (map name ns))"
  using joinArray_strings [of t sep "map name ns"] by simp

lemma numberToString_1: "numberToString t (Finite 1) = str ''1''"
  by (simp add: str_def)

lemma mapElements_strings:
  "\<forall>n. g (AString n) = Inr (AString (name n)) \<Longrightarrow>
   mapElements g (map AString ns) = Inr (map AString (map name ns))"
  by (induction ns) simp_all

lemma requirementKind_object:
  "requirementKind (AObject ps) = Some k \<longleftrightarrow> property ps (str ''type'') = AString k"
  by (cases "property ps (str ''type'')") simp_all

lemma format_other:
  assumes "x \<noteq> AUndefined" "x \<noteq> ANull" "requirementKind x \<notin> Some ` set requirementKinds"
  shows "formatRequirementSummary g t x = Inr (str ''Requirement'')"
proof (cases x)
  case (AObject ps)
  show ?thesis
  proof (cases "property ps (str ''type'')")
    case (AString k)
    with assms(3) AObject have "k \<notin> set requirementKinds" by auto
    with AString AObject show ?thesis
      by (simp add: formatRequirementSummary_def getData_object andThen_def requirementKinds_def
          del: getData.simps)
  qed (simp_all add: AObject formatRequirementSummary_def getData_object andThen_def
        del: getData.simps)
qed (use assms in \<open>simp_all add: formatRequirementSummary_def andThen_def\<close>)

lemma format_kinds:
  assumes g: "\<forall>n. g (AString n) = Inr (AString (name n))"
  shows
    "property ps (str ''type'') = AString (str ''triggerIs'') \<Longrightarrow>
     property ps (str ''value'') = AString n \<Longrightarrow>
     formatRequirementSummary g t (AObject ps) = Inr (str ''Trigger is '' @ name n)"
    "property ps (str ''type'') = AString (str ''triggerConfigEquals'') \<Longrightarrow>
     property ps (str ''field'') = AString f \<Longrightarrow>
     formatRequirementSummary g t (AObject ps) =
       map_sum id (\<lambda>s. str ''Trigger field '' @ f @ str '' equals '' @ s)
         (ToString t (property ps (str ''value'')))"
    "property ps (str ''type'') = AString (str ''mustHaveNode'') \<Longrightarrow>
     property ps (str ''value'') = AString n \<Longrightarrow>
     formatRequirementSummary g t (AObject ps) = Inr (str ''Includes '' @ name n)"
    "property ps (str ''type'') = AString (str ''forbidNodeType'') \<Longrightarrow>
     property ps (str ''value'') = AString n \<Longrightarrow>
     formatRequirementSummary g t (AObject ps) = Inr (str ''Does not include '' @ name n)"
    "property ps (str ''type'') = AString (str ''nodeConfigRequired'') \<Longrightarrow>
     property ps (str ''nodeType'') = AString n \<Longrightarrow>
     property ps (str ''fields'') = AArray (map AString fs) \<Longrightarrow>
     formatRequirementSummary g t (AObject ps) =
       Inr (name n @ str '' has '' @ join (str '', '') fs)"
    "property ps (str ''type'') = AString (str ''nodeOrder'') \<Longrightarrow>
     property ps (str ''sequence'') = AArray (map AString ns) \<Longrightarrow>
     formatRequirementSummary g t (AObject ps) =
       Inr (str ''Order: '' @ join (str '' -> '') (map name ns))"
    "property ps (str ''type'') = AString (str ''mustContainIfElse'') \<Longrightarrow>
     property ps (str ''minCount'') = AUndefined \<Longrightarrow>
     formatRequirementSummary g t (AObject ps) = Inr (str ''Has at least 1 If/Else step'')"
    "property ps (str ''type'') = AString (str ''mustContainIfElse'') \<Longrightarrow>
     property ps (str ''minCount'') = ANumber c \<Longrightarrow>
     formatRequirementSummary g t (AObject ps) =
       Inr (str ''Has at least '' @ numberToString t c @ str '' If/Else step'')"
    "property ps (str ''type'') = AString (str ''branchCountAtLeast'') \<Longrightarrow>
     property ps (str ''count'') = ANumber c \<Longrightarrow>
     formatRequirementSummary g t (AObject ps) =
       Inr (str ''If/Else has at least '' @ numberToString t c @ str '' paths'')"
    "property ps (str ''type'') = AString (str ''pathMustInclude'') \<Longrightarrow>
     property ps (str ''nodeTypes'') = AArray (map AString ns) \<Longrightarrow>
     formatRequirementSummary g t (AObject ps) =
       Inr (str ''Includes '' @ join (str '', '') (map name ns))"
    "property ps (str ''type'') = AString (str ''requireStopPath'') \<Longrightarrow>
     formatRequirementSummary g t (AObject ps) =
       Inr (str ''Each path ends when there are no more steps'')"
  using g mapElements_strings [OF g]
  by (simp_all add: formatRequirementSummary_def getData_object andThen_def str_eq_iff
      joinArray_strings joinArray_names numberToString_1
      del: getData.simps numberToString.simps)
     (auto simp: str_def split: sum.splits)

text \<open>
  C2 as stated fails: an object with the tag \<open>nodeConfigRequired\<close> and no \<open>fields\<close>
  property makes \<open>formatRequirementSummary\<close> throw a TypeError
  (\<open>requirement.fields.join\<close> reads a property of \<open>undefined\<close>).
\<close>

theorem formatRequirementSummary_kinds_counterexample:
  "formatRequirementSummary (\<lambda>v. Inr v) (\<lambda>q. [])
     (AObject [(str ''type'', AString (str ''nodeConfigRequired'')),
               (str ''nodeType'', AString (str ''sms.send''))]) = Inl TypeError"
  by (simp add: formatRequirementSummary_def andThen_def str_eq_iff)

text \<open>
  C2, amended. \<open>formatRequirementSummary\<close> returns a string exactly for the requirement
  values that are well formed for their kind, and throws a TypeError for every other
  value (\<open>null\<close>, \<open>undefined\<close>, a kind that lists field keys or node types without
  its array, a node type without a display name, a field that cannot be printed). Every
  value other than \<open>null\<close> and \<open>undefined\<close> whose \<open>type\<close> is none of the ten
  catalogued kinds gives the generic "Requirement". When \<open>getNodeDisplayName\<close> gives the
  name \<open>name n\<close> for every node type \<open>n\<close>, a requirement with the properties of its kind
  gives the summary of that kind.
\<close>

theorem formatRequirementSummary_kinds:
  "((\<exists>s. formatRequirementSummary g t x = Inr s) \<longleftrightarrow> wellFormed g x)
   \<and> (\<not> wellFormed g x \<longrightarrow> formatRequirementSummary g t x = Inl TypeError)
   \<and> (x \<noteq> AUndefined \<and> x \<noteq> ANull \<and> requirementKind x \<notin> Some ` set requirementKinds \<longrightarrow>
        formatRequirementSummary g t x = Inr (str ''Requirement''))
   \<and> ((\<forall>n. g (AString n) = Inr (AString (name n))) \<longrightarrow>
        (requirementKind (AObject ps) = Some (str ''triggerIs'')
           \<and> property ps (str ''value'') = AString n \<longrightarrow>
         formatRequirementSummary g t (AObject ps) = Inr (str ''Trigger is '' @ name n))
      \<and> (requirementKind (AObject ps) = Some (str ''triggerConfigEquals'')
           \<and> property ps (str ''field'') = AString f \<longrightarrow>
         formatRequirementSummary g t (AObject ps) =
           map_sum id (\<lambda>s. str ''Trigger field '' @ f @ str '' equals '' @ s)
             (ToString t (property ps (str ''value''))))
      \<and> (requirementKind (AObject ps) = Some (str ''mustHaveNode'')
           \<and> property ps (str ''value'') = AString n \<longrightarrow>
         formatRequirementSummary g t (AObject ps) = Inr (str ''Includes '' @ name n))
      \<and> (requirementKind (AObject ps) = Some (str ''forbidNodeType'')
           \<and> property ps (str ''value'') = AString n \<longrightarrow>
         formatRequirementSummary g t (AObject ps) = Inr (str ''Does not include '' @ name n))
      \<and> (requirementKind (AObject ps) = Some (str ''nodeConfigRequired'')
           \<and> property ps (str ''nodeType'') = AString n
           \<and> property ps (str ''fields'') = AArray (map AString fs) \<longrightarrow>
         formatRequirementSummary g t (AObject ps) =
           Inr (name n @ str '' has '' @ join (str '', '') fs))
      \<and> (requirementKind (AObject ps) = Some (str ''nodeOrder'')
           \<and> property ps (str ''sequence'') = AArray (map AString ns) \<longrightarrow>
         formatRequirementSummary g t (AObject ps) =
           Inr (str ''Order: '' @ join (str '' -> '') (map name ns)))
      \<and> (requirementKind (AObject ps) = Some (str ''mustContainIfElse'')
           \<and> property ps (str ''minCount'') = AUndefined \<longrightarrow>
         formatRequirementSummary g t (AObject ps) = Inr (str ''Has at least 1 If/Else step''))
      \<and> (requirementKind (AObject ps) = Some (str ''mustContainIfElse'')
           \<and> property ps (str ''minCount'') = ANumber c \<longrightarrow>
         formatRequirementSummary g t (AObject ps) =
           Inr (str ''Has at least '' @ numberToString t c @ str '' If/Else step''))
      \<and> (requirementKind (AObject ps) = Some (str ''branchCountAtLeast'')
           \<and> property ps (str ''count'') = ANumber c \<longrightarrow>
         formatRequirementSummary g t (AObject ps) =
           Inr (str ''If/Else has at least '' @ numberToString t c @ str '' paths''))
      \<and> (requirementKind (AObject ps) = Some (str ''pathMustInclude'')
           \<and> property ps (str ''nodeTypes'') = AArray (map AString ns) \<longrightarrow>
         formatRequirementSummary g t (AObject ps) =
           Inr (str ''Includes '' @ join (str '', '') (map name ns)))
      \<and> (requirementKind (AObject ps) = Some (str ''requireStopPath'') \<longrightarrow>
         formatRequirementSummary g t (AObject ps) =
           Inr (str ''Each path ends when there are no more steps'')))"
proof (intro conjI impI; (elim conjE)?)
  show "(\<exists>s. formatRequirementSummary g t x = Inr s) \<longleftrightarrow> wellFormed g x"
    using formatRequirementSummary_returns [of g t x] by (simp add: Inr_iff_not_isl)
  show "formatRequirementSummary g t x = Inl TypeError" if "\<not> wellFormed g x"
    using that formatRequirementSummary_returns [of g t x] by (simp add: error_Inl)
  show "formatRequirementSummary g t x = Inr (str ''Requirement'')"
    if "x \<noteq> AUndefined" "x \<noteq> ANull" "requirementKind x \<notin> Some ` set requirementKinds"
    using that by (rule format_other)
qed (simp_all only: requirementKind_object, (rule format_kinds; assumption)+)

theorem formatRequirementSummary_kinds_witness:
  "AObject [(str ''type'', AString (str ''custom''))] \<noteq> AUndefined
   \<and> AObject [(str ''type'', AString (str ''custom''))] \<noteq> ANull
   \<and> requirementKind (AObject [(str ''type'', AString (str ''custom''))])
       \<notin> Some ` set requirementKinds
   \<and> formatRequirementSummary (\<lambda>v. Inr v) (\<lambda>q. [])
        (AObject [(str ''type'', AString (str ''custom''))]) = Inr (str ''Requirement'')
   \<and> wellFormed (\<lambda>v. Inr v) (AObject [(str ''type'', AString (str ''custom''))])
   \<and> requirementKind (AObject fieldsRequirement) = Some (str ''nodeConfigRequired'')
   \<and> formatRequirementSummary (\<lambda>v. Inr v) (\<lambda>q. []) (AObject fieldsRequirement) =
       Inr (str ''sms.send has body, to'')"
proof -
  have k: "requirementKind (AObject [(str ''type'', AString (str ''custom''))])
       \<notin> Some ` set requirementKinds"
    by (simp add: property_def requirementKinds_def str_eq_iff)
  have p: "requirementKind (AObject fieldsRequirement) = Some (str ''nodeConfigRequired'')"
    "property fieldsRequirement (str ''nodeType'') = AString (str ''sms.send'')"
    "property fieldsRequirement (str ''fields'') = AArray (map AString [str ''body'', str ''to''])"
    by (simp_all add: property_def fieldsRequirement_def str_eq_iff)
  have j: "str ''sms.send'' @ str '' has '' @ join (str '', '') [str ''body'', str ''to'']
      = str ''sms.send has body, to''"
    by (simp add: str_def)
  note T = formatRequirementSummary_kinds
    [where g = "\<lambda>v. Inr v" and t = "\<lambda>q. []" and name = "\<lambda>n. n"
       and x = "AObject [(str ''type'', AString (str ''custom''))]"
       and ps = fieldsRequirement and n = "str ''sms.send''"
       and fs = "[str ''body'', str ''to'']" and f = "[]" and ns = "[]" and c = NaN]
  have a: "formatRequirementSummary (\<lambda>v. Inr v) (\<lambda>q. [])
        (AObject [(str ''type'', AString (str ''custom''))]) = Inr (str ''Requirement'')"
    using T [THEN conjunct2, THEN conjunct2, THEN conjunct1] k by simp
  have b: "wellFormed (\<lambda>v. Inr v) (AObject [(str ''type'', AString (str ''custom''))])"
    using T [THEN conjunct1] a by simp
  have g: "\<forall>n. (\<lambda>v. Inr v) (AString n) = Inr (AString ((\<lambda>n. n) n))" by simp
  have c: "formatRequirementSummary (\<lambda>v. Inr v) (\<lambda>q. []) (AObject fieldsRequirement) =
       Inr (str ''sms.send'' @ str '' has '' @ join (str '', '') [str ''body'', str ''to''])"
    using T [THEN conjunct2, THEN conjunct2, THEN conjunct2, THEN mp, OF g,
      THEN conjunct2, THEN conjunct2, THEN conjunct2, THEN conjunct2, THEN conjunct1] p
    by simp
  from a b c k p(1) show ?thesis unfolding j by simp
qed

text \<open>
  C5 as stated fails: a single-workflow scenario without a \<open>triggerIs\<close> requirement has
  \<open>singleTriggerMode\<close> disabled.
\<close>

theorem singleTriggerMode_counterexample:
  "\<not> singleTriggerMode
       (Some (Single (exampleScenario\<lparr>requirements := [MustContainIfElse (Some 1)]\<rparr>)))"
  by (simp add: singleTriggerMode_def exampleScenario_def str_def)

text \<open>
  C5, amended. \<open>singleTriggerMode\<close> is enabled exactly for the single-workflow scenarios
  whose requirements hold a \<open>triggerIs\<close> requirement; it is disabled for every other
  single-workflow scenario, for bundles, and when no scenario is supplied.
\<close>

theorem singleTriggerMode_iff:
  "singleTriggerMode sc \<longleftrightarrow>
     (\<exists>s. sc = Some (Single s) \<and> (\<exists>r \<in> set (requirements s). \<exists>v. r = TriggerIs v))"
  by (auto simp: singleTriggerMode_def list_ex_iff requirementType_triggerIs
      split: option.splits ScenarioDefinition.splits)

theorem singleTriggerMode_iff_witness:
  "singleTriggerMode (Some (Single exampleScenario))
   \<and> \<not> singleTriggerMode (Some (Bundle \<lparr>bundleModuleId = str ''M07'', bundleTitle = str ''Two'',
          workflows = [\<lparr>workflowId = str ''w1'', scenario = exampleScenario\<rparr>]\<rparr>))
   \<and> \<not> singleTriggerMode None"
  using singleTriggerMode_iff [of "Some (Single exampleScenario)"]
    singleTriggerMode_iff [of "Some (Bundle \<lparr>bundleModuleId = str ''M07'', bundleTitle = str ''Two'',
          workflows = [\<lparr>workflowId = str ''w1'', scenario = exampleScenario\<rparr>]\<rparr>)"]
    singleTriggerMode_iff [of None]
  by (simp add: exampleScenario_def)

subsection \<open>Hints\<close>

lemma set_fold_setInsert: "set (fold setInsert xs acc) = set acc \<union> set xs"
  by (induction xs arbitrary: acc) (auto simp: setInsert_def)

lemma distinct_fold_setInsert: "distinct acc \<Longrightarrow> distinct (fold setInsert xs acc)"
  by (induction xs arbitrary: acc) (auto simp: setInsert_def)

lemma fold_setInsert_distinct: "distinct (acc @ xs) \<Longrightarrow> fold setInsert xs acc = acc @ xs"
  by (induction xs arbitrary: acc) (auto simp: setInsert_def)

lemma distinct_arrayFromSet: "distinct (arrayFromSet xs)"
  by (simp add: arrayFromSet_def distinct_fold_setInsert)

lemma set_arrayFromSet: "set (arrayFromSet xs) = set xs"
  by (simp add: arrayFromSet_def set_fold_setInsert)

lemma arrayFromSet_distinct: "distinct xs \<Longrightarrow> arrayFromSet xs = xs"
  using fold_setInsert_distinct [of "[]" xs] by (simp add: arrayFromSet_def)

lemma arrayFromSet_append: "arrayFromSet (xs @ ys) = fold setInsert ys (arrayFromSet xs)"
  by (simp add: arrayFromSet_def)

lemma arrayFromSet_absorb: "arrayFromSet (arrayFromSet xs @ ys) = arrayFromSet (xs @ ys)"
  by (simp add: arrayFromSet_append arrayFromSet_distinct distinct_arrayFromSet)

lemma arrayFromSet_Nil_iff: "arrayFromSet xs = [] \<longleftrightarrow> xs = []"
  using set_arrayFromSet [of xs] by (metis set_empty)

lemma cleaned_append: "cleaned t (xs @ ys) = cleaned t xs @ cleaned t ys"
  by (simp add: cleaned_def)

lemma cleaned_nonblank: "v \<in> set (cleaned t xs) \<Longrightarrow> length (trim v) \<noteq> 0"
  by (auto simp: cleaned_def)

lemma hintAt_collectHint:
  "hintAt (collectHint t a b l vs n h) nodeType fk =
     (if a = nodeType \<and> b = fk \<and> cleaned t vs \<noteq> []
      then Some \<lparr>hintLabel = l,
                 hintValues = arrayFromSet (valuesAt h nodeType fk @ cleaned t vs),
                 hintNote = (case hintAt h nodeType fk of
                               None \<Rightarrow> n
                             | Some e \<Rightarrow> (case hintNote e of None \<Rightarrow> n | Some x \<Rightarrow> Some x))\<rparr>
      else hintAt h nodeType fk)"
  by (auto simp: collectHint_def hintAt_def valuesAt_def Let_def split: option.splits)

lemma fold_concat_calls:
  "(\<And>x h. f x h = fold g (k x) h) \<Longrightarrow> fold f xs h = fold g (concat (map k xs)) h"
  by (induction xs arbitrary: h) simp_all

lemma fold_map_calls: "fold (\<lambda>x. g (k x)) xs h = fold g (map k xs) h"
  by (simp add: fold_map comp_def)

lemma messageHints_calls: "messageHints t m h = fold (applyCall t) (messageCalls m) h"
  by (simp add: messageHints_def messageCalls_def applyCall_def Let_def)

lemma hasLength_orEmpty: "hasLength xs \<Longrightarrow> the xs = orEmpty xs"
  by (cases xs) (simp_all add: hasLength_def orEmpty_def)

lemma not_hasLength_orEmpty: "\<not> hasLength xs \<Longrightarrow> orEmpty xs = []"
  by (cases xs) (simp_all add: hasLength_def orEmpty_def)

lemma collect_contains_calls:
  "fold (\<lambda>x. collectHint t a b l (map JString (contains x)) n) xs h =
   fold (applyCall t) (map (\<lambda>x. (a, b, l, map JString (contains x), n)) xs) h"
  by (induction xs arbitrary: h) (simp_all add: applyCall_def)

lemma collect_urlContains_calls:
  "fold (\<lambda>x. collectHint t a b l (map JString (urlContains x)) n) xs h =
   fold (applyCall t) (map (\<lambda>x. (a, b, l, map JString (urlContains x), n)) xs) h"
  by (induction xs arbitrary: h) (simp_all add: applyCall_def)

lemma guarded_fold: "(if hasLength xs then fold f (the xs) h else h) = fold f (orEmpty xs) h"
  by (cases xs) (simp_all add: hasLength_def orEmpty_def)

lemma guarded_fold_map:
  "(if hasLength xs then fold f (map k (the xs)) h else h) = fold f (map k (orEmpty xs)) h"
  by (cases xs) (simp_all add: hasLength_def orEmpty_def)

lemma guarded_collect:
  "(if hasLength xs then collectHint t a b l (F (the xs)) n h else h) =
   fold (applyCall t) (if hasLength xs then [(a, b, l, F (orEmpty xs), n)] else []) h"
  by (cases xs) (simp_all add: hasLength_def orEmpty_def applyCall_def)

lemma guarded_collect2:
  "(if hasLength xs
    then collectHint t a' b' l' (F' (the xs)) n' (collectHint t a b l (F (the xs)) n h)
    else h) =
   fold (applyCall t)
     (if hasLength xs then [(a, b, l, F (orEmpty xs), n), (a', b', l', F' (orEmpty xs), n')] else []) h"
  by (cases xs) (simp_all add: hasLength_def orEmpty_def applyCall_def)

lemma testCaseHints_calls: "testCaseHints t tc h = fold (applyCall t) (testCaseCalls tc) h"
proof -
  have m: "\<And>h. (case messages (expect tc) of None \<Rightarrow> h | Some ms \<Rightarrow> fold (messageHints t) ms h) =
       fold (applyCall t) (concat (map messageCalls (orEmpty (messages (expect tc))))) h"
    using fold_concat_calls [of "messageHints t" "applyCall t" messageCalls, OF messageHints_calls]
    by (simp add: orEmpty_def split: option.splits)
  show ?thesis
    unfolding testCaseHints_def testCaseCalls_def Let_def
    by (simp only: m guarded_fold guarded_fold_map guarded_collect guarded_collect2 collect_contains_calls
        collect_urlContains_calls fold_append fold_simps o_apply)
qed

lemma build_calls:
  "fold (testCaseHints t) tcs h = fold (applyCall t) (concat (map testCaseCalls tcs)) h"
  by (rule fold_concat_calls) (rule testCaseHints_calls)

lemma valuesFor_Nil: "valuesFor a b [] = []"
  by (simp add: valuesFor_def)

lemma valuesFor_append: "valuesFor a b (xs @ ys) = valuesFor a b xs @ valuesFor a b ys"
  by (simp add: valuesFor_def)

lemma valuesFor_Cons:
  "valuesFor a b ((a', b', l, vs, n) # cs) =
     (if a = a' \<and> b = b' then vs @ valuesFor a b cs else valuesFor a b cs)"
  by (simp add: valuesFor_def)

lemma valuesFor_concat:
  "valuesFor a b (concat (map k xs)) = concat (map (\<lambda>x. valuesFor a b (k x)) xs)"
  by (induction xs) (simp_all add: valuesFor_Nil valuesFor_append)

lemma valuesFor_map_same:
  "valuesFor a b (map (\<lambda>x. (a, b, l, F x, n)) xs) = concat (map F xs)"
  by (induction xs) (simp_all add: valuesFor_def)

lemma valuesFor_map_other:
  "\<not> (a = a' \<and> b = b') \<Longrightarrow> valuesFor a b (map (\<lambda>x. (a', b', l, F x, n)) xs) = []"
  by (induction xs) (auto simp: valuesFor_def)

lemma valuesFor_map:
  "valuesFor a b (map (\<lambda>x. (a', b', l, F x, n)) xs) =
     (if a = a' \<and> b = b' then concat (map F xs) else [])"
proof (cases "a = a' \<and> b = b'")
  case True
  then show ?thesis by (simp add: valuesFor_map_same)
next
  case False
  have e: "valuesFor a b (map (\<lambda>x. (a', b', l, F x, n)) xs) = []"
    using False by (rule valuesFor_map_other)
  show ?thesis by (simp only: e if_not_P [OF False])
qed

lemma concat_map_JString: "concat (map (\<lambda>x. map JString (F x)) xs) = map JString (concat (map F xs))"
  by (induction xs) simp_all

lemma valuesFor_messageCalls:
  "valuesFor a b (concat (map messageCalls ms)) =
     (if a = str ''sms.send'' \<and> b = str ''body''
      then map JString (concat (map contains (filter (\<lambda>m. channel m = str ''sms'') ms)))
      else if a = str ''email.send'' \<and> (b = str ''body'' \<or> b = str ''subject'')
      then map JString (concat (map contains (filter (\<lambda>m. channel m = str ''email'') ms)))
      else [])"
proof (induction ms)
  case Nil
  show ?case by (simp add: valuesFor_Nil)
next
  case (Cons m ms)
  have ne: "str ''sms.send'' \<noteq> str ''email.send''" "str ''sms'' \<noteq> str ''email''"
    "str ''body'' \<noteq> str ''subject''"
    by (simp_all add: str_eq_iff)
  have one: "valuesFor a b (messageCalls m) =
     (if a = str ''sms.send'' \<and> b = str ''body'' \<and> channel m = str ''sms''
      then map JString (contains m)
      else if a = str ''email.send'' \<and> (b = str ''body'' \<or> b = str ''subject'')
              \<and> channel m = str ''email''
      then map JString (contains m) else [])"
    using ne by (auto simp: messageCalls_def valuesFor_Cons valuesFor_Nil)
  have step: "valuesFor a b (concat (map messageCalls (m # ms))) =
      valuesFor a b (messageCalls m) @ valuesFor a b (concat (map messageCalls ms))"
    by (simp add: valuesFor_append)
  show ?case unfolding step one Cons.IH using ne by auto
qed

lemma guarded_map: "(if hasLength xs then map f (orEmpty xs) else []) = map f (orEmpty xs)"
  by (cases xs) (simp_all add: hasLength_def orEmpty_def)

lemma valuesFor_if:
  "valuesFor a b (if c then xs else ys) = (if c then valuesFor a b xs else valuesFor a b ys)"
  by simp

lemma valuesFor_testCaseCalls: "valuesFor a b (testCaseCalls tc) = routedValues tc a b"
proof -
  note rules = testCaseCalls_def routedValues_def Let_def valuesFor_append
    valuesFor_messageCalls valuesFor_map valuesFor_Cons valuesFor_Nil valuesFor_if
    concat_map_JString guarded_map str_eq_iff not_hasLength_orEmpty
  consider
      (sms) "a = str ''sms.send''" "b = str ''body''"
    | (emailBody) "a = str ''email.send''" "b = str ''body''"
    | (emailSubject) "a = str ''email.send''" "b = str ''subject''"
    | (tagAdd) "a = str ''tag.add''" "b = str ''tag''"
    | (tagRemove) "a = str ''tag.remove''" "b = str ''tag''"
    | (fieldName) "a = str ''field.update''" "b = str ''fieldKey''"
    | (fieldVal) "a = str ''field.update''" "b = str ''value''"
    | (task) "a = str ''task.create''" "b = str ''title''"
    | (notify) "a = str ''user.notify''" "b = str ''message''"
    | (webhook) "a = str ''webhook.send''" "b = str ''url''"
    | (other) "\<not> (a = str ''sms.send'' \<and> b = str ''body'')"
        "\<not> (a = str ''email.send'' \<and> b = str ''body'')"
        "\<not> (a = str ''email.send'' \<and> b = str ''subject'')"
        "\<not> (a = str ''tag.add'' \<and> b = str ''tag'')"
        "\<not> (a = str ''tag.remove'' \<and> b = str ''tag'')"
        "\<not> (a = str ''field.update'' \<and> b = str ''fieldKey'')"
        "\<not> (a = str ''field.update'' \<and> b = str ''value'')"
        "\<not> (a = str ''task.create'' \<and> b = str ''title'')"
        "\<not> (a = str ''user.notify'' \<and> b = str ''message'')"
        "\<not> (a = str ''webhook.send'' \<and> b = str ''url'')"
    by argo
  then show ?thesis
  proof cases
    case sms then show ?thesis by (simp add: rules)
  next
    case emailBody then show ?thesis by (simp add: rules)
  next
    case emailSubject then show ?thesis by (simp add: rules)
  next
    case tagAdd then show ?thesis by (simp add: rules)
  next
    case tagRemove then show ?thesis by (simp add: rules)
  next
    case fieldName then show ?thesis by (simp add: rules)
  next
    case fieldVal then show ?thesis by (simp add: rules)
  next
    case task then show ?thesis by (simp add: rules)
  next
    case notify then show ?thesis by (simp add: rules)
  next
    case webhook then show ?thesis by (simp add: rules)
  next
    case other
    then have f: "(a = str ''sms.send'' \<and> b = str ''body'') = False"
      "(a = str ''email.send'' \<and> (b = str ''body'' \<or> b = str ''subject'')) = False"
      "(a = str ''tag.add'' \<and> b = str ''tag'') = False"
      "(a = str ''tag.remove'' \<and> b = str ''tag'') = False"
      "(a = str ''field.update'' \<and> b = str ''fieldKey'') = False"
      "(a = str ''field.update'' \<and> b = str ''value'') = False"
      "(a = str ''task.create'' \<and> b = str ''title'') = False"
      "(a = str ''user.notify'' \<and> b = str ''message'') = False"
      "(a = str ''webhook.send'' \<and> b = str ''url'') = False"
      by argo+
    show ?thesis
      by (simp only: rules f if_False append_Nil append_Nil2 if_cancel)
  qed
qed

lemma valuesAt_cong: "hintAt h' nodeType fk = hintAt h nodeType fk \<Longrightarrow>
   valuesAt h' nodeType fk = valuesAt h nodeType fk"
  by (simp add: valuesAt_def)

lemma valuesAt_Some: "hintAt h nodeType fk = Some e \<Longrightarrow> valuesAt h nodeType fk = hintValues e"
  by (simp add: valuesAt_def)

lemma valuesAt_collectHint:
  assumes "distinct (valuesAt h nodeType fk)"
  shows "valuesAt (collectHint t a b l vs n h) nodeType fk =
     (if nodeType = a \<and> fk = b
      then arrayFromSet (valuesAt h nodeType fk @ cleaned t vs)
      else valuesAt h nodeType fk)"
proof (cases "a = nodeType \<and> b = fk \<and> cleaned t vs \<noteq> []")
  case True
  then have "hintAt (collectHint t a b l vs n h) nodeType fk =
      Some \<lparr>hintLabel = l,
            hintValues = arrayFromSet (valuesAt h nodeType fk @ cleaned t vs),
            hintNote = (case hintAt h nodeType fk of
                          None \<Rightarrow> n
                        | Some e \<Rightarrow> (case hintNote e of None \<Rightarrow> n | Some x \<Rightarrow> Some x))\<rparr>"
    by (simp add: hintAt_collectHint)
  then have "valuesAt (collectHint t a b l vs n h) nodeType fk =
      arrayFromSet (valuesAt h nodeType fk @ cleaned t vs)"
    by (simp add: valuesAt_Some)
  with True show ?thesis by auto
next
  case False
  have "hintAt (collectHint t a b l vs n h) nodeType fk = hintAt h nodeType fk"
    unfolding hintAt_collectHint by (rule if_not_P [OF False])
  then have "valuesAt (collectHint t a b l vs n h) nodeType fk = valuesAt h nodeType fk"
    by (rule valuesAt_cong)
  with False assms show ?thesis by (auto simp: arrayFromSet_distinct)
qed

lemma valuesAt_fold_calls:
  "distinct (valuesAt h nodeType fk) \<Longrightarrow>
   valuesAt (fold (applyCall t) calls h) nodeType fk =
     arrayFromSet (valuesAt h nodeType fk @ cleaned t (valuesFor nodeType fk calls))"
proof (induction calls arbitrary: h)
  case Nil
  then show ?case by (simp add: valuesFor_Nil cleaned_def arrayFromSet_distinct)
next
  case (Cons c cs)
  obtain a b l vs n where c: "c = (a, b, l, vs, n)" by (cases c)
  let ?h = "collectHint t a b l vs n h"
  have v: "valuesAt ?h nodeType fk =
     (if nodeType = a \<and> fk = b
      then arrayFromSet (valuesAt h nodeType fk @ cleaned t vs)
      else valuesAt h nodeType fk)"
    using Cons.prems by (rule valuesAt_collectHint)
  then have d: "distinct (valuesAt ?h nodeType fk)"
    using Cons.prems by (simp add: distinct_arrayFromSet)
  have "valuesAt (fold (applyCall t) (c # cs) h) nodeType fk =
        valuesAt (fold (applyCall t) cs ?h) nodeType fk"
    by (simp add: c applyCall_def)
  also have "\<dots> = arrayFromSet (valuesAt ?h nodeType fk @ cleaned t (valuesFor nodeType fk cs))"
    using d by (rule Cons.IH)
  also have "\<dots> = arrayFromSet (valuesAt h nodeType fk @ cleaned t (valuesFor nodeType fk (c # cs)))"
  proof (cases "nodeType = a \<and> fk = b")
    case True
    show ?thesis
      unfolding v c valuesFor_Cons using True
      by (simp add: cleaned_append arrayFromSet_absorb)
  next
    case False
    then show ?thesis
      unfolding v c valuesFor_Cons by (simp only: if_not_P [OF False] if_False)
  qed
  finally show ?case .
qed

lemma hint_None_collectHint:
  "(hintAt h nodeType fk = None \<longleftrightarrow> valuesAt h nodeType fk = []) \<Longrightarrow>
   (hintAt (collectHint t a b l vs n h) nodeType fk = None \<longleftrightarrow>
      valuesAt (collectHint t a b l vs n h) nodeType fk = [])"
  by (auto simp: valuesAt_def hintAt_collectHint arrayFromSet_Nil_iff)

lemma hint_None_fold_calls:
  "(hintAt h nodeType fk = None \<longleftrightarrow> valuesAt h nodeType fk = []) \<Longrightarrow>
   (hintAt (fold (applyCall t) calls h) nodeType fk = None \<longleftrightarrow>
      valuesAt (fold (applyCall t) calls h) nodeType fk = [])"
proof (induction calls arbitrary: h)
  case Nil
  then show ?case by simp
next
  case (Cons c cs)
  obtain a b l vs n where c: "c = (a, b, l, vs, n)" by (cases c)
  from Cons.prems have "hintAt (collectHint t a b l vs n h) nodeType fk = None \<longleftrightarrow>
      valuesAt (collectHint t a b l vs n h) nodeType fk = []"
    by (rule hint_None_collectHint)
  then show ?case using Cons.IH [of "collectHint t a b l vs n h"]
    by (simp add: c applyCall_def)
qed

lemma noteAt_collectHint:
  "noteAt (collectHint t a b l vs n h) nodeType fk =
     (if nodeType = a \<and> fk = b \<and> cleaned t vs \<noteq> []
      then (case noteAt h nodeType fk of None \<Rightarrow> n | Some x \<Rightarrow> Some x)
      else noteAt h nodeType fk)"
  by (auto simp: noteAt_def hintAt_collectHint split: option.splits)

lemma noteAt_fold_calls:
  "noteAt (fold (applyCall t) calls h) nodeType fk =
     (case noteAt h nodeType fk of None \<Rightarrow> firstNote t nodeType fk calls | Some x \<Rightarrow> Some x)"
proof (induction calls arbitrary: h)
  case Nil
  then show ?case by (simp split: option.splits)
next
  case (Cons c cs)
  obtain a b l vs n where c: "c = (a, b, l, vs, n)" by (cases c)
  have "noteAt (fold (applyCall t) (c # cs) h) nodeType fk =
      (case noteAt (collectHint t a b l vs n h) nodeType fk of
         None \<Rightarrow> firstNote t nodeType fk cs | Some x \<Rightarrow> Some x)"
    by (simp add: c applyCall_def Cons.IH)
  then show ?case
    unfolding c noteAt_collectHint
    by (cases "noteAt h nodeType fk"; cases n) auto
qed

lemma valuesAt_empty: "valuesAt Map.empty nodeType fk = []"
  by (simp add: valuesAt_def hintAt_def)

lemma valuesAt_build:
  "valuesAt (buildExpectedFieldHints t (Some (Single s))) nodeType fk =
     arrayFromSet (cleaned t (concat (map (\<lambda>tc. routedValues tc nodeType fk) (testCases s))))"
proof -
  have "valuesAt (fold (applyCall t) (concat (map testCaseCalls (testCases s))) Map.empty) nodeType fk =
      arrayFromSet (valuesAt Map.empty nodeType fk @
        cleaned t (valuesFor nodeType fk (concat (map testCaseCalls (testCases s)))))"
    by (rule valuesAt_fold_calls) (simp add: valuesAt_empty)
  then show ?thesis
    by (simp add: buildExpectedFieldHints_def build_calls valuesAt_empty valuesFor_concat
        valuesFor_testCaseCalls)
qed

lemma hint_None_build:
  "hintAt (buildExpectedFieldHints t (Some (Single s))) nodeType fk = None \<longleftrightarrow>
   valuesAt (buildExpectedFieldHints t (Some (Single s))) nodeType fk = []"
  unfolding buildExpectedFieldHints_def build_calls
  by (simp, rule hint_None_fold_calls) (simp add: valuesAt_empty hintAt_def)

lemma example_hint:
  "hintAt (buildExpectedFieldHints (\<lambda>v. str ''0'') (Some exampleCases)) (str ''sms.send'') (str ''body'')
   = Some \<lparr>hintLabel = str ''Expected text to include'', hintValues = [str ''Welcome''],
           hintNote = Some (str ''Use these words somewhere in the SMS.'')\<rparr>"
  by (simp add: buildExpectedFieldHints_def exampleCases_def exampleScenario_def smsCase_def
      emailCase_def noExpect_def testCaseHints_def messageHints_def collectHint_def hintAt_def
      hasLength_def cleaned_def arrayFromSet_def setInsert_def trim_def isWhiteSpace_def
      str_def Let_def)

text \<open>
  C3. For a single-workflow scenario the values of the hint at (node type, field key) are
  the cleaned values that the expected outcomes route to that pair, over all test cases
  in order, each value once: SMS messages to ("sms.send","body"); email messages to
  ("email.send","body") and ("email.send","subject"); tagsAdded to ("tag.add","tag");
  tagsRemoved to ("tag.remove","tag"); fieldsEqual to ("field.update","fieldKey") and
  ("field.update","value"); tasksCreated and systemTasksCreated to ("task.create","title");
  notifications and systemNotifications to ("user.notify","message"); webhooksFired to
  ("webhook.send","url"); no other pair gets a hint. For a bundle and for a missing
  scenario the hint map is empty.
\<close>

theorem buildExpectedFieldHints_routing:
  "valuesAt (buildExpectedFieldHints t (Some (Single s))) nodeType fk =
     arrayFromSet (cleaned t (concat (map (\<lambda>tc. routedValues tc nodeType fk) (testCases s))))
   \<and> (hintAt (buildExpectedFieldHints t (Some (Single s))) nodeType fk = None \<longleftrightarrow>
        cleaned t (concat (map (\<lambda>tc. routedValues tc nodeType fk) (testCases s))) = [])
   \<and> buildExpectedFieldHints t (Some (Bundle b)) = Map.empty
   \<and> buildExpectedFieldHints t None = Map.empty"
proof -
  have "hintAt (buildExpectedFieldHints t (Some (Single s))) nodeType fk = None \<longleftrightarrow>
        cleaned t (concat (map (\<lambda>tc. routedValues tc nodeType fk) (testCases s))) = []"
    by (simp add: hint_None_build valuesAt_build arrayFromSet_Nil_iff)
  moreover have "buildExpectedFieldHints t (Some (Bundle b)) = Map.empty"
    "buildExpectedFieldHints t None = Map.empty"
    by (simp_all add: buildExpectedFieldHints_def)
  ultimately show ?thesis
    using valuesAt_build [of t s nodeType fk] by blast
qed

theorem buildExpectedFieldHints_routing_witness:
  "valuesAt (buildExpectedFieldHints (\<lambda>v. str ''0'')
       (Some (Single (exampleScenario\<lparr>testCases := [smsCase, emailCase, smsCase]\<rparr>))))
     (str ''email.send'') (str ''subject'') = [str ''Welcome'']
   \<and> hintAt (buildExpectedFieldHints (\<lambda>v. str ''0'')
       (Some (Single (exampleScenario\<lparr>testCases := [smsCase, emailCase, smsCase]\<rparr>))))
     (str ''tag.add'') (str ''tag'') = None"
  using buildExpectedFieldHints_routing
      [of "\<lambda>v. str ''0''" "exampleScenario\<lparr>testCases := [smsCase, emailCase, smsCase]\<rparr>"
          "str ''email.send''" "str ''subject''"]
    buildExpectedFieldHints_routing
      [of "\<lambda>v. str ''0''" "exampleScenario\<lparr>testCases := [smsCase, emailCase, smsCase]\<rparr>"
          "str ''tag.add''" "str ''tag''"]
  by (simp add: routedValues_def smsCase_def emailCase_def noExpect_def orEmpty_def cleaned_def
      arrayFromSet_def setInsert_def trim_def isWhiteSpace_def str_def Let_def)

text \<open>
  C6. Every hint that \<open>buildExpectedFieldHints\<close> produces has values without duplicates
  and without an empty or whitespace-only string, however many test cases contribute to
  it. The note of a hint is the first note met: \<open>collectHint\<close> keeps the note the hint
  has and takes the new one only when there is none, so a run of contributions leaves
  the note of the first contribution that carries one.
\<close>

theorem hint_values_clean:
  "(hintAt (buildExpectedFieldHints t sc) nodeType fk = Some e \<longrightarrow>
      distinct (hintValues e) \<and> (\<forall>v \<in> set (hintValues e). length (trim v) \<noteq> 0))
   \<and> (cleaned t vs \<noteq> [] \<longrightarrow>
        noteAt (collectHint t nodeType fk l vs n h) nodeType fk =
          (case noteAt h nodeType fk of None \<Rightarrow> n | Some x \<Rightarrow> Some x))
   \<and> (noteAt h nodeType fk = None \<longrightarrow>
        noteAt (fold (applyCall t) calls h) nodeType fk = firstNote t nodeType fk calls)"
proof (intro conjI impI)
  assume e: "hintAt (buildExpectedFieldHints t sc) nodeType fk = Some e"
  then obtain s where sc: "sc = Some (Single s)"
    by (auto simp: buildExpectedFieldHints_def hintAt_def
        split: option.splits ScenarioDefinition.splits)
  from e have "hintValues e = valuesAt (buildExpectedFieldHints t sc) nodeType fk"
    by (simp add: valuesAt_Some)
  then have v: "hintValues e =
      arrayFromSet (cleaned t (concat (map (\<lambda>tc. routedValues tc nodeType fk) (testCases s))))"
    by (simp add: sc valuesAt_build)
  show "distinct (hintValues e)" unfolding v by (rule distinct_arrayFromSet)
  show "\<forall>v \<in> set (hintValues e). length (trim v) \<noteq> 0"
    unfolding v set_arrayFromSet by (blast dest: cleaned_nonblank)
next
  assume "cleaned t vs \<noteq> []"
  then show "noteAt (collectHint t nodeType fk l vs n h) nodeType fk =
          (case noteAt h nodeType fk of None \<Rightarrow> n | Some x \<Rightarrow> Some x)"
    by (simp add: noteAt_collectHint)
next
  assume "noteAt h nodeType fk = None"
  then show "noteAt (fold (applyCall t) calls h) nodeType fk = firstNote t nodeType fk calls"
    by (simp add: noteAt_fold_calls)
qed

theorem hint_values_clean_witness:
  "hintAt (buildExpectedFieldHints (\<lambda>v. str ''0'') (Some exampleCases)) (str ''sms.send'') (str ''body'')
     = Some \<lparr>hintLabel = str ''Expected text to include'', hintValues = [str ''Welcome''],
             hintNote = Some (str ''Use these words somewhere in the SMS.'')\<rparr>
   \<and> distinct [str ''Welcome'']
   \<and> length (trim (str ''Welcome'')) \<noteq> 0
   \<and> cleaned (\<lambda>v. str ''0'') [JString (str ''Hi'')] \<noteq> []
   \<and> noteAt (collectHint (\<lambda>v. str ''0'') (str ''sms.send'') (str ''body'') (str ''Label'')
         [JString (str ''Hi'')] (Some (str ''second''))
         (buildExpectedFieldHints (\<lambda>v. str ''0'') (Some exampleCases)))
       (str ''sms.send'') (str ''body'') = Some (str ''Use these words somewhere in the SMS.'')
   \<and> noteAt Map.empty (str ''sms.send'') (str ''body'') = None
   \<and> noteAt (fold (applyCall (\<lambda>v. str ''0''))
         [(str ''sms.send'', str ''body'', str ''Label'', [JString (str ''Hi'')], Some (str ''first'')),
          (str ''sms.send'', str ''body'', str ''Label'', [JString (str ''Ho'')], Some (str ''second''))]
         Map.empty) (str ''sms.send'') (str ''body'') = Some (str ''first'')"
proof -
  let ?t = "\<lambda>v::jsvalue. str ''0''"
  let ?H = "buildExpectedFieldHints ?t (Some exampleCases)"
  let ?e = "\<lparr>hintLabel = str ''Expected text to include'', hintValues = [str ''Welcome''],
             hintNote = Some (str ''Use these words somewhere in the SMS.'')\<rparr>"
  have c: "cleaned ?t [JString (str ''Hi'')] \<noteq> []"
    by (simp add: cleaned_def trim_def isWhiteSpace_def str_def)
  have c2: "cleaned ?t [JString (str ''Ho'')] \<noteq> []"
    by (simp add: cleaned_def trim_def isWhiteSpace_def str_def)
  have n0: "noteAt Map.empty (str ''sms.send'') (str ''body'') = None"
    by (simp add: noteAt_def hintAt_def)
  have nH: "noteAt ?H (str ''sms.send'') (str ''body'')
      = Some (str ''Use these words somewhere in the SMS.'')"
    by (simp add: noteAt_def example_hint)
  from hint_values_clean [of ?t "Some exampleCases" "str ''sms.send''" "str ''body''" ?e
      "[JString (str ''Hi'')]" "str ''Label''" "Some (str ''second'')" ?H]
    example_hint c nH
  have a: "distinct [str ''Welcome'']" "length (trim (str ''Welcome'')) \<noteq> 0"
    "noteAt (collectHint ?t (str ''sms.send'') (str ''body'') (str ''Label'')
         [JString (str ''Hi'')] (Some (str ''second'')) ?H) (str ''sms.send'') (str ''body'')
       = Some (str ''Use these words somewhere in the SMS.'')"
    by simp_all
  from hint_values_clean [where t = ?t and nodeType = "str ''sms.send''" and fk = "str ''body''"
      and h = Map.empty
      and calls = "[(str ''sms.send'', str ''body'', str ''Label'', [JString (str ''Hi'')], Some (str ''first'')),
          (str ''sms.send'', str ''body'', str ''Label'', [JString (str ''Ho'')], Some (str ''second''))]"]
    n0 c c2
  have b: "noteAt (fold (applyCall ?t)
         [(str ''sms.send'', str ''body'', str ''Label'', [JString (str ''Hi'')], Some (str ''first'')),
          (str ''sms.send'', str ''body'', str ''Label'', [JString (str ''Ho'')], Some (str ''second''))]
         Map.empty) (str ''sms.send'') (str ''body'') = Some (str ''first'')"
    by simp
  from example_hint a c n0 b show ?thesis by blast
qed

subsection \<open>Outcome comparison\<close>

lemma startsWith_iff: "startsWith s sub \<longleftrightarrow> (\<exists>q. s = sub @ q)"
  by (induction s sub rule: startsWith.induct) auto

lemma includes_iff: "includesStr s sub \<longleftrightarrow> (\<exists>p q. s = p @ sub @ q)"
proof (induction s)
  case Nil
  then show ?case by auto
next
  case (Cons c cs)
  show ?case
  proof
    assume "includesStr (c # cs) sub"
    then consider "startsWith (c # cs) sub" | "includesStr cs sub" by auto
    then show "\<exists>p q. c # cs = p @ sub @ q"
    proof cases
      case 1
      then obtain q where "c # cs = sub @ q" by (auto simp: startsWith_iff)
      then have "c # cs = [] @ sub @ q" by simp
      then show ?thesis by blast
    next
      case 2
      with Cons.IH obtain p q where "cs = p @ sub @ q" by blast
      then have "c # cs = (c # p) @ sub @ q" by simp
      then show ?thesis by blast
    qed
  next
    assume "\<exists>p q. c # cs = p @ sub @ q"
    then obtain p q where pq: "c # cs = p @ sub @ q" by blast
    show "includesStr (c # cs) sub"
    proof (cases p)
      case Nil
      with pq have "startsWith (c # cs) sub" by (auto simp: startsWith_iff)
      then show ?thesis by simp
    next
      case (Cons x p')
      with pq have "cs = p' @ sub @ q" by simp
      with Cons.IH have "includesStr cs sub" by blast
      then show ?thesis by simp
    qed
  qed
qed

lemma matches_kind: "matches a e \<Longrightarrow> assertionKind a = effectKind e"
  by (cases a; cases e) simp_all

lemma passed_compare:
  "passed (compare trace expected) \<longleftrightarrow>
     (\<forall>a \<in> set expected. \<exists>e \<in> set (records trace). matches a e)"
  by (cases trace)
    (auto simp: compare_def assertionResult_def list_all_iff list_ex_iff Let_def)

text \<open>
  C7. The comparison declares the test case passed exactly when every expected assertion
  matches at least one record of the trace, a record of the assertion's own kind; records
  that match no expected assertion change nothing: the verdict is the same with and
  without them, and a passing trace still passes with more records in it.
\<close>

theorem compare_passed:
  "(passed (compare trace expected) \<longleftrightarrow>
      (\<forall>a \<in> set expected. \<exists>e \<in> set (records trace).
          assertionKind a = effectKind e \<and> matches a e))
   \<and> (passed (compare (Fired es) expected) \<longrightarrow> set es \<subseteq> set es' \<longrightarrow>
        passed (compare (Fired es') expected))
   \<and> passed (compare (Fired (filter (\<lambda>e. list_ex (\<lambda>a. matches a e) expected) es)) expected)
       = passed (compare (Fired es) expected)"
proof (intro conjI impI)
  show "passed (compare trace expected) \<longleftrightarrow>
      (\<forall>a \<in> set expected. \<exists>e \<in> set (records trace).
          assertionKind a = effectKind e \<and> matches a e)"
    unfolding passed_compare using matches_kind by blast
next
  assume "passed (compare (Fired es) expected)" and "set es \<subseteq> set es'"
  then show "passed (compare (Fired es') expected)"
    unfolding passed_compare by fastforce
next
  show "passed (compare (Fired (filter (\<lambda>e. list_ex (\<lambda>a. matches a e) expected) es)) expected)
       = passed (compare (Fired es) expected)"
    unfolding passed_compare by (simp add: list_ex_iff) blast
qed

theorem compare_passed_witness:
  "passed (compare (Fired [MessageSent (str ''sms'') (str ''Welcome!'')])
       [ExpectMessage (str ''sms'') [str ''Welcome'']])
   \<and> passed (compare (Fired [TagAdded (str ''log''), MessageSent (str ''sms'') (str ''Welcome!'')])
       [ExpectMessage (str ''sms'') [str ''Welcome'']])
   \<and> \<not> passed (compare TriggerMismatch [ExpectMessage (str ''sms'') [str ''Welcome'']])
   \<and> \<not> passed (compare (Fired [MessageSent (str ''email'') (str ''Welcome!'')])
       [ExpectMessage (str ''sms'') [str ''Welcome'']])"
proof -
  let ?a = "ExpectMessage (str ''sms'') [str ''Welcome'']"
  let ?e = "MessageSent (str ''sms'') (str ''Welcome!'')"
  have m: "matches ?a ?e" by (simp add: str_def)
  have n: "\<not> matches ?a (MessageSent (str ''email'') (str ''Welcome!''))"
    by (simp add: str_eq_iff)
  from m have k: "assertionKind ?a = effectKind ?e" by simp
  from compare_passed [of "Fired [?e]" "[?a]"] m k
  have p1: "passed (compare (Fired [?e]) [?a])" by simp
  from compare_passed [of _ _ "[?e]" "[TagAdded (str ''log''), ?e]"] p1
  have p2: "passed (compare (Fired [TagAdded (str ''log''), ?e]) [?a])" by simp
  from compare_passed [of TriggerMismatch "[?a]"]
  have p3: "\<not> passed (compare TriggerMismatch [?a])" by simp
  from compare_passed [of "Fired [MessageSent (str ''email'') (str ''Welcome!'')]" "[?a]"] n
  have p4: "\<not> passed (compare (Fired [MessageSent (str ''email'') (str ''Welcome!'')]) [?a])"
    by simp
  from p1 p2 p3 p4 show ?thesis by blast
qed

end
